theory Spec2Isabelle
  imports Complex_Main "HOL-Library.Log_Nat"
begin

unbundle bit_operations_syntax

section \<open>Python values\<close>

text \<open>
  Python integers are unbounded and are modelled as \<open>int\<close>; \<open>&\<close>, \<open>|\<close>, \<open>~\<close>, \<open><<\<close> and
  \<open>>>\<close> are \<open>AND\<close>, \<open>OR\<close>, \<open>NOT\<close>, \<open>push_bit\<close> and \<open>drop_bit\<close>, which have the same
  two's-complement meaning on negative numbers.
\<close>

text \<open>
  The exceptions of the source: those of a subprocess call (the tool exits with an error,
  the tool is missing, its output is not a hexadecimal number), that of a division by
  zero, and those of converting an infinite or NaN float to an integer.
\<close>

datatype error =
    CalledProcessError | FileNotFoundError | ValueError | ZeroDivisionError | OverflowError

subsection \<open>Floats\<close>

text \<open>
  A Python float is an IEEE 754 binary64 number: a finite number, carried here by its
  value, an infinity, or NaN. The two zeros are not told apart; nothing in these programs
  depends on the sign of a zero.
\<close>

datatype pyfloat = Finite rat | PosInf | NegInf | NaN

text \<open>\<open>pow2 k\<close> is \<open>2^k\<close> for an integer \<open>k\<close> of either sign.\<close>

definition pow2 :: "int \<Rightarrow> rat" where
  "pow2 k = (if 0 \<le> k then 2 ^ nat k else 1 / 2 ^ nat (- k))"

text \<open>
  For \<open>a > 0\<close>, \<open>floor_log2 a\<close> is the exponent \<open>e\<close> with \<open>2^e \<le> a < 2^(e+1)\<close>: the
  difference of the bit lengths of numerator and denominator, or one less.
\<close>

definition floor_log2 :: "rat \<Rightarrow> int" where
  "floor_log2 a =
     (let k = bitlen (fst (quotient_of a)) - bitlen (snd (quotient_of a))
      in if pow2 k \<le> a then k else k - 1)"

text \<open>The nearest integer, a tie going to the even one.\<close>

definition round_half_even :: "rat \<Rightarrow> int" where
  "round_half_even x =
     (let f = \<lfloor>x\<rfloor>; d = x - of_int f
      in if d < 1 / 2 then f
         else if 1 / 2 < d then f + 1
         else if even f then f else f + 1)"

text \<open>
  \<open>to_double x\<close> is the float an arithmetic operation returns when its exact result is
  \<open>x\<close> (round to nearest, ties to even). With \<open>e\<close> the exponent of \<open>|x|\<close>, the floats near
  \<open>|x|\<close> are the multiples of \<open>2^q\<close>, where \<open>q = e - 52\<close> (53 significant bits), or
  \<open>q = -1074\<close> for subnormal numbers; \<open>|x|\<close> is rounded to \<open>n * 2^q\<close>. The result is
  infinite when \<open>n * 2^q\<close> reaches \<open>2^1024\<close>, that is when \<open>e > 1023\<close>, or \<open>e = 1023\<close> and
  \<open>n\<close> has been rounded up to \<open>2^53\<close>.
\<close>

definition to_double :: "rat \<Rightarrow> pyfloat" where
  "to_double x =
     (if x = 0 then Finite 0
      else
        let a = \<bar>x\<bar>;
            e = floor_log2 a;
            q = max e (- 1022) - 52;
            n = round_half_even (a / pow2 q)
        in if 1023 < e \<or> (e = 1023 \<and> 2 ^ 53 \<le> n)
           then (if 0 < x then PosInf else NegInf)
           else Finite (if 0 < x then of_int n * pow2 q else - (of_int n * pow2 q)))"

text \<open>
  \<open>x / y\<close> on floats raises on a zero divisor, whatever \<open>x\<close> is; otherwise it returns
  the IEEE quotient, which is infinite when the rounded quotient is too large.
\<close>

definition py_truediv :: "pyfloat \<Rightarrow> pyfloat \<Rightarrow> error + pyfloat" where
  "py_truediv x y =
     (case y of
        Finite b \<Rightarrow>
          if b = 0 then Inl ZeroDivisionError
          else (case x of
                  Finite a \<Rightarrow> Inr (to_double (a / b))
                | PosInf \<Rightarrow> Inr (if 0 < b then PosInf else NegInf)
                | NegInf \<Rightarrow> Inr (if 0 < b then NegInf else PosInf)
                | NaN \<Rightarrow> Inr NaN)
      | PosInf \<Rightarrow>
          (case x of Finite a \<Rightarrow> Inr (Finite 0) | PosInf \<Rightarrow> Inr NaN
           | NegInf \<Rightarrow> Inr NaN | NaN \<Rightarrow> Inr NaN)
      | NegInf \<Rightarrow>
          (case x of Finite a \<Rightarrow> Inr (Finite 0) | PosInf \<Rightarrow> Inr NaN
           | NegInf \<Rightarrow> Inr NaN | NaN \<Rightarrow> Inr NaN)
      | NaN \<Rightarrow> Inr NaN)"

text \<open>
  \<open>int(x)\<close> on a float truncates towards zero; it raises \<open>OverflowError\<close> on an infinity
  and \<open>ValueError\<close> on NaN.
\<close>

definition py_int :: "pyfloat \<Rightarrow> error + int" where
  "py_int x =
     (case x of
        Finite a \<Rightarrow> Inr (if 0 \<le> a then \<lfloor>a\<rfloor> else \<lceil>a\<rceil>)
      | PosInf \<Rightarrow> Inl OverflowError
      | NegInf \<Rightarrow> Inl OverflowError
      | NaN \<Rightarrow> Inl ValueError)"

text \<open>
  \<open>round(x)\<close> on a float returns the nearest integer, a tie going to the even one, and
  raises as \<open>int(x)\<close> does; \<open>int\<close> of the integer it returns is that integer.
\<close>

definition py_round :: "pyfloat \<Rightarrow> error + int" where
  "py_round x =
     (case x of
        Finite a \<Rightarrow> Inr (round_half_even a)
      | PosInf \<Rightarrow> Inl OverflowError
      | NegInf \<Rightarrow> Inl OverflowError
      | NaN \<Rightarrow> Inl ValueError)"

text \<open>
  Where a float is finite by construction (a unit scale \<open>1.0 / 2^n\<close> with \<open>n < 16\<close>, a
  decoded limit, a literal of the source), the decoders and the catalogue carry it as the
  rational it denotes. The decoders' float operations are a division of 1 by a power of
  two and products of an integer below \<open>2^15\<close>, or of a power of two, with such a unit:
  each result has a significand of less than 53 bits and is exact (\<open>to_double_exact\<close>
  below).
\<close>

section \<open>The machine: model-specific registers behind the rdmsr and wrmsr tools\<close>

text \<open>
  Both programs reach the registers only by running the external tools \<open>rdmsr\<close> and
  \<open>wrmsr\<close> as subprocesses. The machine holds the register file, the log of the tool
  invocations made so far, the messages shown to the operator, and a fault schedule:
  \<open>faults m n\<close> is the exception raised by the \<open>n\<close>-th invocation (counted from 0), if
  any. A failing invocation is logged but reads or writes nothing. A successful \<open>wrmsr\<close>
  stores the value, and a later \<open>rdmsr\<close> returns it.

  The messages are what the operator sees: the line \<open>apply_chill_profile\<close> prints, the
  error dialogues of the front end (title and exception), and the three numbers (PL1,
  PL2, tau) the front end puts into its label.
\<close>

datatype call = Rdmsr int | Wrmsr int int

datatype message =
    Print string
  | ShowError string error
  | LabelConfig rat rat rat

record machine =
  msrs :: "int \<Rightarrow> int"
  faults :: "nat \<Rightarrow> error option"
  calls :: "call list"
  outputs :: "message list"

text \<open>A procedure either returns a value or raises, and leaves a machine behind.\<close>

type_synonym 'a io = "machine \<Rightarrow> (error + 'a) \<times> machine"

definition return_io :: "'a \<Rightarrow> 'a io" where
  "return_io x m = (Inr x, m)"

definition bind_io :: "'a io \<Rightarrow> ('a \<Rightarrow> 'b io) \<Rightarrow> 'b io" where
  "bind_io f g m = (case f m of (Inl e, m') \<Rightarrow> (Inl e, m') | (Inr x, m') \<Rightarrow> g x m')"

text \<open>A pure computation that may raise, run inside a procedure.\<close>

definition lift_io :: "error + 'a \<Rightarrow> 'a io" where
  "lift_io r m = (r, m)"

text \<open>One run of \<open>rdmsr\<close>, and one of \<open>wrmsr\<close>.\<close>

definition tool_read :: "int \<Rightarrow> int io" where
  "tool_read msr m =
     (let m' = m\<lparr>calls := calls m @ [Rdmsr msr]\<rparr>
      in case faults m (length (calls m)) of
           Some e \<Rightarrow> (Inl e, m')
         | None \<Rightarrow> (Inr (msrs m msr), m'))"

definition tool_write :: "int \<Rightarrow> int \<Rightarrow> unit io" where
  "tool_write msr v m =
     (let m' = m\<lparr>calls := calls m @ [Wrmsr msr v]\<rparr>
      in case faults m (length (calls m)) of
           Some e \<Rightarrow> (Inl e, m')
         | None \<Rightarrow> (Inr (), m'\<lparr>msrs := (msrs m)(msr := v)\<rparr>))"

text \<open>The register writes among the logged invocations, in order.\<close>

fun writes_of :: "call list \<Rightarrow> (int \<times> int) list" where
  "writes_of [] = []"
| "writes_of (Rdmsr _ # cs) = writes_of cs"
| "writes_of (Wrmsr msr v # cs) = (msr, v) # writes_of cs"

section \<open>agents/apply\_pl.py\<close>

abbreviation MSR_RAPL_POWER_UNIT :: int where
  "MSR_RAPL_POWER_UNIT \<equiv> 0x606"

abbreviation MSR_PKG_POWER_LIMIT :: int where
  "MSR_PKG_POWER_LIMIT \<equiv> 0x610"

text \<open>\<open>rdmsr\<close> and \<open>wrmsr\<close> (lines 21 to 29) run the tools.\<close>

definition rdmsr :: "int \<Rightarrow> int io" where
  "rdmsr msr = tool_read msr"

definition wrmsr :: "int \<Rightarrow> int \<Rightarrow> unit io" where
  "wrmsr msr v = tool_write msr v"

text \<open>\<open>decode_units\<close> (lines 32 to 44): \<open>1 << pu\<close> is at least 1, so the division never raises.\<close>

definition decode_units :: "(rat \<times> rat) io" where
  "decode_units =
     bind_io (rdmsr MSR_RAPL_POWER_UNIT) (\<lambda>units.
       let pu = units AND 0x0F;
           tu = drop_bit 16 units AND 0x0F;
           power_unit = 1 / of_int (push_bit (nat pu) 1);
           time_unit = 1 / of_int (push_bit (nat tu) 1)
       in return_io (power_unit, time_unit))"

text \<open>
  \<open>encode_power_field\<close> (lines 47 to 57). Its first statement,
  \<open>raw_power = int(watts / power_unit)\<close>, is given a name of its own.
\<close>

definition raw_power :: "pyfloat \<Rightarrow> pyfloat \<Rightarrow> error + int" where
  "raw_power watts power_unit =
     (case py_truediv watts power_unit of
        Inl e \<Rightarrow> Inl e
      | Inr q \<Rightarrow> py_int q)"

definition encode_power_field :: "int \<Rightarrow> pyfloat \<Rightarrow> pyfloat \<Rightarrow> error + int" where
  "encode_power_field raw watts power_unit =
     (case raw_power watts power_unit of
        Inl e \<Rightarrow> Inl e
      | Inr rp \<Rightarrow>
          (let raw1 = raw AND NOT 0x7FFF;
               raw2 = raw1 OR (rp AND 0x7FFF)
           in Inr raw2))"

text \<open>\<open>apply_chill_profile\<close> (lines 60 to 85).\<close>

definition apply_chill_profile :: "unit io" where
  "apply_chill_profile =
     bind_io decode_units (\<lambda>(power_unit, time_unit).
     bind_io (rdmsr MSR_PKG_POWER_LIMIT) (\<lambda>pkg.
       let lo = pkg AND 0xFFFFFFFF;
           hi = drop_bit 32 pkg AND 0xFFFFFFFF
       in
     bind_io (lift_io (encode_power_field lo (Finite 20) (Finite power_unit))) (\<lambda>lo'.
     bind_io (lift_io (encode_power_field hi (Finite 28) (Finite power_unit))) (\<lambda>hi'.
       let new_pkg = push_bit 32 hi' OR lo' in
     bind_io (wrmsr MSR_PKG_POWER_LIMIT new_pkg) (\<lambda>_. (\<lambda>m.
       (Inr (), m\<lparr>outputs := outputs m @
          [Print ''T2 PL preset applied: Chill (PL1=20 W, PL2=28 W)'']\<rparr>)))))))"

section \<open>cpu\_pl\_gui.py\<close>

text \<open>
  \<open>run_rdmsr\<close> and \<open>run_wrmsr\<close> (lines 8 to 13) run the tools under \<open>sudo\<close>. The front end
  names the registers by the strings \<open>"0x606"\<close> and \<open>"0x610"\<close>, which the tools parse to the
  same indices.
\<close>

definition run_rdmsr :: "int \<Rightarrow> int io" where
  "run_rdmsr msr = tool_read msr"

definition run_wrmsr :: "int \<Rightarrow> int \<Rightarrow> unit io" where
  "run_wrmsr msr value_int = tool_write msr value_int"

text \<open>
  \<open>decode_power_time_units\<close> (lines 15 to 27) takes the time exponent from bits 4 to 7,
  as its docstring says.
\<close>

definition decode_power_time_units :: "(rat \<times> rat) io" where
  "decode_power_time_units =
     bind_io (run_rdmsr 0x606) (\<lambda>val.
       let power_bits = val AND 0xF;
           time_bits = drop_bit 4 val AND 0xF;
           power_unit = 1 / 2 ^ nat power_bits;
           time_unit = 1 / 2 ^ nat time_bits
       in return_io (power_unit, time_unit))"

text \<open>\<open>decode_pls\<close> (lines 29 to 52) returns PL1, PL2, tau and the raw register value.\<close>

definition decode_pls :: "(rat \<times> rat \<times> rat \<times> int) io" where
  "decode_pls =
     bind_io decode_power_time_units (\<lambda>(power_unit, time_unit).
     bind_io (run_rdmsr 0x610) (\<lambda>val.
       let lower = val AND 0xFFFFFFFF;
           upper = drop_bit 32 val AND 0xFFFFFFFF;
           pl1_raw = lower AND 0x7FFF;
           pl2_raw = upper AND 0x7FFF;
           tau_raw = drop_bit 17 lower AND 0x7F;
           tau_seconds = time_unit * 2 ^ nat tau_raw;
           pl1_w = of_int pl1_raw * power_unit;
           pl2_w = of_int pl2_raw * power_unit
       in return_io (pl1_w, pl2_w, tau_seconds, val)))"

text \<open>
  \<open>encode_pls\<close> (lines 54 to 76) reads the unit register itself. Its conversion of lines
  69 and 70, \<open>int(round(pl_w / power_unit))\<close>, is given a name of its own.
\<close>

definition watts_to_raw :: "pyfloat \<Rightarrow> pyfloat \<Rightarrow> error + int" where
  "watts_to_raw pl_w power_unit =
     (case py_truediv pl_w power_unit of
        Inl e \<Rightarrow> Inl e
      | Inr q \<Rightarrow> py_round q)"

definition encode_pls :: "pyfloat \<Rightarrow> pyfloat \<Rightarrow> int \<Rightarrow> int io" where
  "encode_pls pl1_w pl2_w preserve_tau_from_val =
     bind_io decode_power_time_units (\<lambda>(power_unit, _).
       let old = preserve_tau_from_val;
           lower_old = old AND 0xFFFFFFFF;
           upper_old = drop_bit 32 old AND 0xFFFFFFFF
       in
     bind_io (lift_io (watts_to_raw pl1_w (Finite power_unit))) (\<lambda>pl1_raw.
     bind_io (lift_io (watts_to_raw pl2_w (Finite power_unit))) (\<lambda>pl2_raw.
       let lower_new = (lower_old AND NOT 0x7FFF) OR (pl1_raw AND 0x7FFF);
           upper_new = (upper_old AND NOT 0x7FFF) OR (pl2_raw AND 0x7FFF)
       in return_io (push_bit 32 upper_new OR lower_new))))"

text \<open>The catalogue of presets (lines 80 to 86): name, PL1 and PL2 in watts.\<close>

definition PROFILES :: "(string \<times> rat \<times> rat) list" where
  "PROFILES =
     [(''Eco'', 12, 20),
      (''Chill'', 20, 28),
      (''Sport'', 23, 32),
      (''Full'', 55 / 2, 40),
      (''Stupid'', 30, 45)]"

text \<open>
  \<open>update_current_label\<close> (lines 131 to 138) catches every exception of its body and
  reports it in a dialogue, so it always returns normally.
\<close>

definition update_current_label :: "machine \<Rightarrow> machine" where
  "update_current_label m =
     (case decode_pls m of
        (Inr (pl1, pl2, tau, _), m') \<Rightarrow>
          m'\<lparr>outputs := outputs m' @ [LabelConfig pl1 pl2 tau]\<rparr>
      | (Inl e, m') \<Rightarrow>
          m'\<lparr>outputs := outputs m' @ [ShowError ''Error reading PLs'' e]\<rparr>)"

text \<open>
  \<open>apply_profile\<close> (lines 140 to 152), with the name the selected radio button holds as
  argument. An unknown name returns at once; an exception of the \<open>try\<close> block is shown in
  a dialogue; after the write the display is refreshed.
\<close>

definition apply_profile :: "string \<Rightarrow> machine \<Rightarrow> machine" where
  "apply_profile name m =
     (case find (\<lambda>p. fst p = name) PROFILES of
        None \<Rightarrow> m
      | Some (_, pl1, pl2) \<Rightarrow>
          (case bind_io decode_pls (\<lambda>(_, _, _, old_val).
                bind_io (encode_pls (Finite pl1) (Finite pl2) old_val) (\<lambda>new_val.
                bind_io (run_wrmsr 0x610 new_val) (\<lambda>_. (\<lambda>m'.
                  (Inr (), update_current_label m'))))) m of
             (Inr _, m') \<Rightarrow> m'
           | (Inl e, m') \<Rightarrow>
               m'\<lparr>outputs := outputs m' @ [ShowError ''Error applying profile'' e]\<rparr>))"

section \<open>Bit fields of Python integers\<close>

text \<open>
  The masks of the source are the masks \<open>2^n - 1\<close>, so \<open>x & mask\<close> is \<open>x mod 2^n\<close>, for
  negative \<open>x\<close> too.
\<close>

lemma mask15: "(0x7FFF :: int) = mask 15"
  by (simp add: mask_eq_exp_minus_1)

lemma mask32: "(0xFFFFFFFF :: int) = mask 32"
  by (simp add: mask_eq_exp_minus_1)

lemma and_mask4: "(x :: int) AND 0xF = x mod 16"
proof -
  have "x AND mask 4 = x mod 2 ^ 4"
    by (simp add: take_bit_eq_mask [symmetric] take_bit_eq_mod)
  then show ?thesis by (simp add: mask_eq_exp_minus_1)
qed

lemma and_mask15: "(x :: int) AND 0x7FFF = x mod 2 ^ 15"
  unfolding mask15 by (simp add: take_bit_eq_mask [symmetric] take_bit_eq_mod)

lemma and_mask32: "(x :: int) AND 0xFFFFFFFF = x mod 2 ^ 32"
  unfolding mask32 by (simp add: take_bit_eq_mask [symmetric] take_bit_eq_mod)

lemma and_mask7: "(x :: int) AND 0x7F = x mod 2 ^ 7"
proof -
  have "x AND mask 7 = x mod 2 ^ 7"
    by (simp add: take_bit_eq_mask [symmetric] take_bit_eq_mod)
  then show ?thesis by (simp add: mask_eq_exp_minus_1)
qed

text \<open>
  The patch \<open>(raw & ~0x7FFF) | (rp & 0x7FFF)\<close> that both encoders apply to a half: bit by
  bit, its low field, its range.
\<close>

lemma bit_patch:
  "bit (((raw :: int) AND NOT 0x7FFF) OR (rp AND 0x7FFF)) i = (if i < 15 then bit rp i else bit raw i)"
  unfolding mask15 by (auto simp add: bit_simps)


lemma and32_range: "0 \<le> (x :: int) AND 0xFFFFFFFF \<and> x AND 0xFFFFFFFF < 2 ^ 32"
proof -
  have "x AND mask 32 = take_bit 32 x" by (simp add: take_bit_eq_mask)
  then show ?thesis
    using take_bit_nonnegative [of 32 x] take_bit_int_less_exp [of 32 x]
    unfolding mask32 by simp
qed

lemma patch_range:
  assumes "0 \<le> (raw :: int)" "raw < 2 ^ 32"
  shows "0 \<le> ((raw AND NOT 0x7FFF) OR (rp AND 0x7FFF)) \<and> ((raw AND NOT 0x7FFF) OR (rp AND 0x7FFF)) < 2 ^ 32"
proof -
  define r where "r = (raw AND NOT 0x7FFF) OR (rp AND 0x7FFF)"
  have bitr: "\<And>i. bit r i = (if i < 15 then bit rp i else bit raw i)"
    unfolding r_def by (rule bit_patch)
  have "take_bit 32 raw = raw" using assms by (simp add: take_bit_int_eq_self)
  then have b: "\<And>i. bit raw i \<Longrightarrow> i < 32"
    by (metis bit_take_bit_iff)
  have "take_bit 32 r = r"
    by (rule bit_eqI) (auto simp add: bitr bit_take_bit_iff dest: b)
  then have "0 \<le> r \<and> r < 2 ^ 32"
    by (metis take_bit_nonnegative take_bit_int_less_exp)
  then show ?thesis unfolding r_def .
qed

lemma combine_halves:
  assumes "0 \<le> (lo :: int)" "lo < 2 ^ 32"
  shows "(push_bit 32 hi OR lo) AND 0xFFFFFFFF = lo" and "drop_bit 32 (push_bit 32 hi OR lo) = hi"
proof -
  have "take_bit 32 lo = lo" using assms by (simp add: take_bit_int_eq_self)
  then have b: "\<And>i. bit lo i \<Longrightarrow> i < 32"
    by (metis bit_take_bit_iff)
  show "(push_bit 32 hi OR lo) AND 0xFFFFFFFF = lo"
    unfolding mask32 by (rule bit_eqI) (auto simp add: bit_simps dest: b)
  show "drop_bit 32 (push_bit 32 hi OR lo) = hi"
    by (rule bit_eqI) (auto simp add: bit_simps dest: b)
qed

text \<open>
  The recombined register value \<open>(upper_new << 32) | lower_new\<close>, bit by bit, and the
  fields that \<open>decode_pls\<close> extracts from it.
\<close>

lemma new_pkg_bits:
  assumes "v = push_bit 32 (((drop_bit 32 pkg AND 0xFFFFFFFF) AND NOT 0x7FFF) OR (r2 AND 0x7FFF))
             OR (((pkg AND 0xFFFFFFFF) AND NOT 0x7FFF) OR (r1 AND 0x7FFF))"
  shows "bit (v :: int) i =
    (if i < 15 then bit r1 i
     else if i < 32 then bit pkg i
     else if i < 47 then bit r2 (i - 32)
     else if i < 64 then bit pkg i else False)"
  unfolding assms mask15 mask32 by (auto simp add: bit_simps)

lemma new_pkg_fields:
  assumes "v = push_bit 32 (((drop_bit 32 pkg AND 0xFFFFFFFF) AND NOT 0x7FFF) OR (r2 AND 0x7FFF))
             OR (((pkg AND 0xFFFFFFFF) AND NOT 0x7FFF) OR (r1 AND 0x7FFF))"
  shows "((v :: int) AND 0xFFFFFFFF) AND 0x7FFF = r1 mod 2 ^ 15"
    and "(drop_bit 32 v AND 0xFFFFFFFF) AND 0x7FFF = r2 mod 2 ^ 15"
    and "drop_bit 17 (v AND 0xFFFFFFFF) AND 0x7F = drop_bit 17 (pkg AND 0xFFFFFFFF) AND 0x7F"
    and "0 \<le> v" and "v < 2 ^ 64"
proof -
  note b = new_pkg_bits [OF assms]
  have m7: "(0x7F :: int) = mask 7" by (simp add: mask_eq_exp_minus_1)
  have "(v AND 0xFFFFFFFF) AND 0x7FFF = take_bit 15 r1"
    unfolding mask15 mask32 by (rule bit_eqI) (auto simp add: bit_simps b)
  then show "(v AND 0xFFFFFFFF) AND 0x7FFF = r1 mod 2 ^ 15"
    by (simp add: take_bit_eq_mod)
  have "(drop_bit 32 v AND 0xFFFFFFFF) AND 0x7FFF = take_bit 15 r2"
    unfolding mask15 mask32 by (rule bit_eqI) (auto simp add: bit_simps b)
  then show "(drop_bit 32 v AND 0xFFFFFFFF) AND 0x7FFF = r2 mod 2 ^ 15"
    by (simp add: take_bit_eq_mod)
  show "drop_bit 17 (v AND 0xFFFFFFFF) AND 0x7F = drop_bit 17 (pkg AND 0xFFFFFFFF) AND 0x7F"
    unfolding m7 mask32 by (rule bit_eqI) (auto simp add: bit_simps b)
  have "take_bit 64 v = v"
    by (rule bit_eqI) (auto simp add: bit_simps b)
  then show "0 \<le> v" and "v < 2 ^ 64"
    by (metis take_bit_nonnegative, metis take_bit_int_less_exp)
qed

lemma frame_bits:
  assumes v: "v = push_bit 32 (((drop_bit 32 pkg AND 0xFFFFFFFF) AND NOT 0x7FFF) OR (r2 AND 0x7FFF))
             OR (((pkg AND 0xFFFFFFFF) AND NOT 0x7FFF) OR (r1 AND 0x7FFF))"
    and "0 \<le> pkg" and "pkg < 2 ^ 64"
  shows "\<forall>i. \<not> i < 15 \<and> \<not> (32 \<le> i \<and> i < 47) \<longrightarrow> bit v i = bit (pkg :: int) i"
proof -
  have "take_bit 64 pkg = pkg" using assms(2,3) by (simp add: take_bit_int_eq_self)
  then have b: "\<And>i. bit pkg i \<Longrightarrow> i < 64"
    by (metis bit_take_bit_iff)
  show ?thesis
    by (auto simp add: new_pkg_bits [OF v] dest: b)
qed

section \<open>Floats: when rounding is exact\<close>

lemma pow2_pos: "0 < pow2 k"
  by (simp add: pow2_def)

lemma pow2_add: "pow2 (i + j) = pow2 i * pow2 j"
proof -
  have "pow2 k = 2 powi k" for k
    by (simp add: pow2_def power_int_def field_simps)
  then show ?thesis by (simp add: power_int_add)
qed

lemma pow2_nat: "pow2 (int n) = 2 ^ n"
  by (simp add: pow2_def)

lemma pow2_neg_nat: "pow2 (- int n) = 1 / 2 ^ n"
  by (cases n) (simp_all add: pow2_def nat_add_distrib)

lemma pow2_mono: "i \<le> j \<Longrightarrow> pow2 i \<le> pow2 j"
proof -
  assume "i \<le> j"
  then obtain n where j: "j = i + int n" by (metis zle_iff_zadd)
  have "(1 :: rat) \<le> 2 ^ n" by simp
  then have "pow2 i * 1 \<le> pow2 i * 2 ^ n"
    using pow2_pos [of i] by (intro mult_left_mono) simp_all
  then show ?thesis unfolding j pow2_add pow2_nat by simp
qed

lemma pow2_less_imp: "pow2 i < pow2 j \<Longrightarrow> i < j"
  using pow2_mono [of j i] by (cases "i < j") simp_all

text \<open>The exponent \<open>floor_log2\<close> computes is not too large.\<close>

lemma floor_log2_le:
  assumes "0 < a"
  shows "pow2 (floor_log2 a) \<le> a"
proof -
  obtain n d where q: "quotient_of a = (n, d)" by (cases "quotient_of a")
  then have d: "0 < d" and a: "a = of_int n / of_int d"
    using quotient_of_denom_pos quotient_of_div by blast+
  with assms have n: "0 < n" by (simp add: zero_less_divide_iff)
  define k where "k = bitlen n - bitlen d"
  show ?thesis
  proof (cases "pow2 k \<le> a")
    case True
    then show ?thesis by (simp add: floor_log2_def q k_def Let_def)
  next
    case False
    then have f: "floor_log2 a = k - 1" by (simp add: floor_log2_def q k_def Let_def)
    have bn: "1 \<le> bitlen n" and bd: "1 \<le> bitlen d"
      using n d by (simp_all add: bitlen_alt_def)
    from bitlen_bounds [OF n] have "(2 :: int) ^ nat (bitlen n - 1) \<le> n" by simp
    then have "(of_int ((2 :: int) ^ nat (bitlen n - 1)) :: rat) \<le> of_int n"
      by (simp only: of_int_le_iff)
    then have ln: "pow2 (bitlen n - 1) \<le> of_int n"
      using bn by (simp add: pow2_def)
    from bitlen_bounds [OF d] have "d < (2 :: int) ^ nat (bitlen d)" by simp
    then have "(of_int d :: rat) < of_int ((2 :: int) ^ nat (bitlen d))"
      by (simp only: of_int_less_iff)
    then have ud: "of_int d < pow2 (bitlen d)"
      using bd by (simp add: pow2_def)
    have "pow2 (k - 1) * of_int d \<le> pow2 (k - 1) * pow2 (bitlen d)"
      using ud pow2_pos [of "k - 1"] by (intro mult_left_mono) simp_all
    also have "\<dots> = pow2 (bitlen n - 1)"
      unfolding pow2_add [symmetric] k_def by simp
    also have "\<dots> \<le> of_int n" by (rule ln)
    finally have "pow2 (k - 1) \<le> of_int n / of_int d"
      using d by (simp add: pos_le_divide_eq)
    then have "pow2 (k - 1) \<le> a" by (simp only: a)
    then show ?thesis by (simp only: f)
  qed
qed

lemma round_half_even_of_int: "round_half_even (of_int n) = n"
  by (simp add: round_half_even_def)

text \<open>
  A number \<open>n * 2^j\<close> with a significand \<open>n\<close> below \<open>2^53\<close> and an exponent \<open>j\<close> in the
  range of binary64 is a float: rounding leaves it as it is.
\<close>

lemma to_double_exact:
  assumes n: "0 < n" "n < 2 ^ 53" and j: "- 1074 \<le> j" "j \<le> 971"
  shows "to_double (of_int n * pow2 j) = Finite (of_int n * pow2 j)"
proof -
  define a :: rat where "a = of_int n * pow2 j"
  define e where "e = floor_log2 a"
  define q where "q = max e (- 1022) - 52"
  have a_pos: "0 < a" using n pow2_pos [of j] by (simp add: a_def)
  have "of_int n < (of_int ((2 :: int) ^ 53) :: rat)"
    using n(2) by (simp only: of_int_less_iff)
  then have "of_int n < pow2 53" by (simp add: pow2_def)
  then have "a < pow2 53 * pow2 j"
    unfolding a_def using pow2_pos [of j] by (simp add: mult_strict_right_mono)
  then have "a < pow2 (53 + j)" by (simp add: pow2_add [symmetric])
  with floor_log2_le [OF a_pos] have "pow2 e < pow2 (53 + j)"
    unfolding e_def by simp
  then have e: "e < 53 + j" by (rule pow2_less_imp)
  then have qj: "q \<le> j" using j by (simp add: q_def)
  then obtain i where i: "j = q + int i" by (metis zle_iff_zadd)
  have aq: "a / pow2 q = of_int (n * 2 ^ i)"
    unfolding a_def i pow2_add pow2_nat using pow2_pos [of q] by simp
  have r: "round_half_even (a / pow2 q) = n * 2 ^ i"
    unfolding aq by (rule round_half_even_of_int)
  have scaled: "of_int (n * 2 ^ i) * pow2 q = a"
    using aq pow2_pos [of q] by (simp add: field_simps)
  have fits: "\<not> (1023 < e \<or> (e = 1023 \<and> 2 ^ 53 \<le> n * 2 ^ i))"
  proof (cases "e = 1023")
    case True
    then have "q = 971" by (simp add: q_def)
    with i j(2) have "i = 0" by simp
    with n(2) True show ?thesis by simp
  next
    case False
    with e j(2) show ?thesis by simp
  qed
  have "to_double a = Finite a"
    using a_pos fits
    by (simp add: to_double_def Let_def e_def [symmetric] q_def [symmetric] r scaled
        del: of_int_mult of_int_power)
  then show ?thesis unfolding a_def .
qed

lemma to_double_dyadic:
  assumes "0 < n" "n < 2 ^ 53" "k \<le> 1074"
  shows "to_double (of_int n / 2 ^ k) = Finite (of_int n / 2 ^ k)"
  using to_double_exact [OF assms(1,2), of "- int k"] assms(3)
  by (simp add: pow2_neg_nat)

text \<open>
  So the float operations of the decoders are exact: the unit scales
  \<open>1.0 / 2^n\<close>, the limits \<open>raw * power_unit\<close> for a raw value below \<open>2^15\<close>, and the time
  window \<open>time_unit * 2^w\<close> for \<open>w < 128\<close>.
\<close>

lemma unit_scale_exact:
  "n < 16 \<Longrightarrow> py_truediv (Finite 1) (Finite (2 ^ n)) = Inr (Finite (1 / 2 ^ n))"
  using to_double_dyadic [of 1 n] by (simp add: py_truediv_def)

lemma limit_watts_exact:
  assumes "0 < r" "r < 2 ^ 15" "p < 16"
  shows "to_double (of_int r * (1 / 2 ^ p)) = Finite (of_int r * (1 / 2 ^ p))"
proof -
  from assms(2) have "r < 2 ^ 53" by simp
  from to_double_dyadic [OF assms(1) this, of p] assms(3) show ?thesis by simp
qed

lemma time_window_exact:
  assumes "s < 16" "w < 128"
  shows "to_double (1 / 2 ^ s * 2 ^ w) = Finite (1 / 2 ^ s * 2 ^ w)"
proof -
  have "pow2 (int w - int s) = pow2 (int w) * pow2 (- int s)"
    using pow2_add [of "int w" "- int s"] by simp
  then have "(1 :: rat) / 2 ^ s * 2 ^ w = of_int 1 * pow2 (int w - int s)"
    by (simp add: pow2_nat pow2_neg_nat)
  moreover have "to_double (of_int 1 * pow2 (int w - int s)) =
      Finite (of_int 1 * pow2 (int w - int s))"
    using assms by (intro to_double_exact) simp_all
  ultimately show ?thesis by simp
qed

text \<open>
  A division of a small dyadic wattage by a unit scale is exact too; so the raw values
  of the presets are computed without rounding.
\<close>

lemma preset_quotient_exact:
  assumes "0 < n" "n < 2 ^ 37" "p < 16"
  shows "py_truediv (Finite (of_int n / 2)) (Finite (1 / 2 ^ p)) =
         Inr (Finite (of_int n / 2 * 2 ^ p))"
proof -
  have "(2 :: int) ^ p < 2 ^ 16"
    using assms(3) by (intro power_strict_increasing) simp_all
  with assms(1,2) have "n * 2 ^ p < 2 ^ 37 * 2 ^ 16"
    by (intro mult_strict_mono) simp_all
  then have lt: "n * 2 ^ p < 2 ^ 53" by simp
  have gt: "0 < n * 2 ^ p" using assms(1) by simp
  have "of_int n / 2 / (1 / 2 ^ p) = (of_int (n * 2 ^ p) / 2 ^ 1 :: rat)" by simp
  moreover from to_double_dyadic [OF gt lt, of 1]
  have "to_double (of_int (n * 2 ^ p) / 2 ^ 1) = Finite (of_int (n * 2 ^ p) / 2 ^ 1)" by simp
  ultimately show ?thesis by (simp add: py_truediv_def)
qed

section \<open>Runs of the procedures\<close>

text \<open>
  What each procedure returns and leaves behind, by the position of the first failing
  invocation.
\<close>

lemma tool_read_ok:
  "faults m (length (calls m)) = None \<Longrightarrow>
   tool_read i m = (Inr (msrs m i), m\<lparr>calls := calls m @ [Rdmsr i]\<rparr>)"
  by (simp add: tool_read_def)

lemma tool_read_fail:
  "faults m (length (calls m)) = Some e \<Longrightarrow>
   tool_read i m = (Inl e, m\<lparr>calls := calls m @ [Rdmsr i]\<rparr>)"
  by (simp add: tool_read_def)

lemma tool_write_ok:
  "faults m (length (calls m)) = None \<Longrightarrow>
   tool_write i v m = (Inr (), m\<lparr>calls := calls m @ [Wrmsr i v], msrs := (msrs m)(i := v)\<rparr>)"
  by (simp add: tool_write_def)

lemma writes_of_append: "writes_of (xs @ ys) = writes_of xs @ writes_of ys"
  by (induction xs rule: writes_of.induct) simp_all

lemma no_fault_Suc:
  assumes "\<forall>k<n. faults m (length (calls m) + k) = None"
  shows "0 < n \<Longrightarrow> faults m (length (calls m)) = None"
    and "1 < n \<Longrightarrow> faults m (Suc (length (calls m))) = None"
    and "2 < n \<Longrightarrow> faults m (Suc (Suc (length (calls m)))) = None"
    and "3 < n \<Longrightarrow> faults m (Suc (Suc (Suc (length (calls m))))) = None"
    and "4 < n \<Longrightarrow> faults m (Suc (Suc (Suc (Suc (length (calls m)))))) = None"
    and "5 < n \<Longrightarrow> faults m (Suc (Suc (Suc (Suc (Suc (length (calls m))))))) = None"
  using assms [rule_format, of 0] assms [rule_format, of 1] assms [rule_format, of 2]
    assms [rule_format, of 3] assms [rule_format, of 4] assms [rule_format, of 5]
  by (simp_all add: eval_nat_numeral)

lemma first_fault_cases2:
  assumes "\<exists>j<2. faults m (length (calls m) + j) = Some e \<and>
             (\<forall>k<j. faults m (length (calls m) + k) = None)"
  shows "faults m (length (calls m)) = Some e \<or>
         (faults m (length (calls m)) = None \<and> faults m (Suc (length (calls m))) = Some e)"
proof -
  from assms obtain j where j: "j < 2" "faults m (length (calls m) + j) = Some e"
    "\<forall>k<j. faults m (length (calls m) + k) = None" by blast
  from j(1) have "j = 0 \<or> j = 1" by arith
  then show ?thesis
  proof
    assume "j = 0" with j(2) show ?thesis by simp
  next
    assume "j = 1"
    with j(2) j(3) [rule_format, of 0] show ?thesis by simp
  qed
qed

lemma first_fault_cases3:
  assumes "\<exists>j<3. faults m (length (calls m) + j) = Some e \<and>
             (\<forall>k<j. faults m (length (calls m) + k) = None)"
  shows "faults m (length (calls m)) = Some e \<or>
         (faults m (length (calls m)) = None \<and> faults m (Suc (length (calls m))) = Some e) \<or>
         (faults m (length (calls m)) = None \<and> faults m (Suc (length (calls m))) = None \<and>
          faults m (Suc (Suc (length (calls m)))) = Some e)"
proof -
  from assms obtain j where j: "j < 3" "faults m (length (calls m) + j) = Some e"
    "\<forall>k<j. faults m (length (calls m) + k) = None" by blast
  from j(1) have "j = 0 \<or> j = 1 \<or> j = 2" by arith
  then show ?thesis
  proof (elim disjE)
    assume "j = 0" with j(2) show ?thesis by simp
  next
    assume "j = 1"
    with j(2) j(3) [rule_format, of 0] show ?thesis by simp
  next
    assume "j = 2"
    with j(2) j(3) [rule_format, of 0] j(3) [rule_format, of 1] show ?thesis by simp
  qed
qed

subsection \<open>agents/apply\_pl.py\<close>

lemma decode_units_ok:
  "faults m (length (calls m)) = None \<Longrightarrow>
   decode_units m =
     (Inr (1 / 2 ^ nat (msrs m 0x606 AND 0xF), 1 / 2 ^ nat (drop_bit 16 (msrs m 0x606) AND 0xF)),
      m\<lparr>calls := calls m @ [Rdmsr 0x606]\<rparr>)"
  by (simp add: decode_units_def bind_io_def rdmsr_def tool_read_ok return_io_def Let_def push_bit_eq_mult)

lemma decode_units_fail:
  "faults m (length (calls m)) = Some e \<Longrightarrow>
   decode_units m = (Inl e, m\<lparr>calls := calls m @ [Rdmsr 0x606]\<rparr>)"
  by (simp add: decode_units_def bind_io_def rdmsr_def tool_read_fail)

lemma decode_units_result:
  assumes "fst (decode_units m) = Inr (pu, tu)"
  shows "faults m (length (calls m)) = None"
    and "pu = 1 / 2 ^ nat (msrs m 0x606 AND 0xF)"
proof -
  show f: "faults m (length (calls m)) = None"
  proof (cases "faults m (length (calls m))")
    case None then show ?thesis .
  next
    case (Some e)
    with assms show ?thesis by (simp add: decode_units_fail)
  qed
  from assms show "pu = 1 / 2 ^ nat (msrs m 0x606 AND 0xF)"
    by (simp add: decode_units_ok [OF f])
qed

lemma exponent_lt_16: "nat ((x :: int) AND 0xF) < 16"
  by (simp add: and_mask4)

lemma encode_power_field_Inr:
  "raw_power watts power_unit = Inr rp \<Longrightarrow>
   encode_power_field raw watts power_unit =
     Inr ((raw AND NOT 0x7FFF) OR (rp AND 0x7FFF))"
  by (simp add: encode_power_field_def)

text \<open>
  The raw values of \<open>apply_chill_profile\<close>: \<open>20 / 2^-p\<close> and \<open>28 / 2^-p\<close> are computed
  exactly and are integers, so \<open>int\<close> returns \<open>20 * 2^p\<close> and \<open>28 * 2^p\<close>.
\<close>

lemma chill_raw_power:
  assumes "p < 16"
  shows "raw_power (Finite 20) (Finite (1 / 2 ^ p)) = Inr (20 * 2 ^ p)"
    and "raw_power (Finite 28) (Finite (1 / 2 ^ p)) = Inr (28 * 2 ^ p)"
proof -
  have i: "\<lfloor>of_int k :: rat\<rfloor> = k" for k by simp
  have "py_truediv (Finite (of_int 40 / 2)) (Finite (1 / 2 ^ p)) =
      Inr (Finite (of_int 40 / 2 * 2 ^ p))"
    using assms by (intro preset_quotient_exact) simp_all
  then have "py_truediv (Finite 20) (Finite (1 / 2 ^ p)) = Inr (Finite (of_int (20 * 2 ^ p)))"
    by simp
  then show "raw_power (Finite 20) (Finite (1 / 2 ^ p)) = Inr (20 * 2 ^ p)"
    unfolding raw_power_def py_int_def by (simp only: sum.case pyfloat.case i) simp
  have "py_truediv (Finite (of_int 56 / 2)) (Finite (1 / 2 ^ p)) =
      Inr (Finite (of_int 56 / 2 * 2 ^ p))"
    using assms by (intro preset_quotient_exact) simp_all
  then have "py_truediv (Finite 28) (Finite (1 / 2 ^ p)) = Inr (Finite (of_int (28 * 2 ^ p)))"
    by simp
  then show "raw_power (Finite 28) (Finite (1 / 2 ^ p)) = Inr (28 * 2 ^ p)"
    unfolding raw_power_def py_int_def by (simp only: sum.case pyfloat.case i) simp
qed

lemma chill_encode:
  "encode_power_field raw (Finite 20) (Finite (1 / 2 ^ nat (x AND 0xF))) =
     Inr ((raw AND NOT 0x7FFF) OR ((20 * 2 ^ nat (x AND 0xF)) AND 0x7FFF))"
  "encode_power_field raw (Finite 28) (Finite (1 / 2 ^ nat (x AND 0xF))) =
     Inr ((raw AND NOT 0x7FFF) OR ((28 * 2 ^ nat (x AND 0xF)) AND 0x7FFF))"
  by (rule encode_power_field_Inr, rule chill_raw_power, rule exponent_lt_16)+

lemma chill_fail_1:
  "faults m (length (calls m)) = Some e \<Longrightarrow>
   apply_chill_profile m = (Inl e, m\<lparr>calls := calls m @ [Rdmsr 0x606]\<rparr>)"
  by (simp add: apply_chill_profile_def bind_io_def decode_units_fail)

lemma chill_fail_2:
  "faults m (length (calls m)) = None \<Longrightarrow> faults m (Suc (length (calls m))) = Some e \<Longrightarrow>
   apply_chill_profile m = (Inl e, m\<lparr>calls := calls m @ [Rdmsr 0x606, Rdmsr 0x610]\<rparr>)"
  by (simp add: apply_chill_profile_def bind_io_def decode_units_ok rdmsr_def tool_read_fail)

lemma chill_calls:
  assumes "faults m (length (calls m)) = None" and "faults m (Suc (length (calls m))) = None"
  shows "calls (snd (apply_chill_profile m)) =
     calls m @ [Rdmsr 0x606, Rdmsr 0x610,
       Wrmsr 0x610
         (push_bit 32 (((drop_bit 32 (msrs m 0x610) AND 0xFFFFFFFF) AND NOT 0x7FFF) OR
                       ((28 * 2 ^ nat (msrs m 0x606 AND 0xF)) AND 0x7FFF))
          OR (((msrs m 0x610 AND 0xFFFFFFFF) AND NOT 0x7FFF) OR
              ((20 * 2 ^ nat (msrs m 0x606 AND 0xF)) AND 0x7FFF)))]"
  using assms
  by (simp add: apply_chill_profile_def bind_io_def decode_units_ok rdmsr_def tool_read_ok
      wrmsr_def tool_write_def lift_io_def chill_encode Let_def split: option.split)

lemma chill_all_ok:
  assumes "\<forall>k<3. faults m (length (calls m) + k) = None"
  shows "snd (apply_chill_profile m) =
     m\<lparr>calls := calls m @ [Rdmsr 0x606, Rdmsr 0x610, Wrmsr 0x610
          (push_bit 32 (((drop_bit 32 (msrs m 0x610) AND 0xFFFFFFFF) AND NOT 0x7FFF) OR
                       ((28 * 2 ^ nat (msrs m 0x606 AND 0xF)) AND 0x7FFF))
          OR (((msrs m 0x610 AND 0xFFFFFFFF) AND NOT 0x7FFF) OR
              ((20 * 2 ^ nat (msrs m 0x606 AND 0xF)) AND 0x7FFF)))],
       msrs := (msrs m)(0x610 :=
          (push_bit 32 (((drop_bit 32 (msrs m 0x610) AND 0xFFFFFFFF) AND NOT 0x7FFF) OR
                       ((28 * 2 ^ nat (msrs m 0x606 AND 0xF)) AND 0x7FFF))
          OR (((msrs m 0x610 AND 0xFFFFFFFF) AND NOT 0x7FFF) OR
              ((20 * 2 ^ nat (msrs m 0x606 AND 0xF)) AND 0x7FFF)))),
       outputs := outputs m @ [Print ''T2 PL preset applied: Chill (PL1=20 W, PL2=28 W)'']\<rparr>"
proof -
  note n = no_fault_Suc [OF assms]
  have f0: "faults m (length (calls m)) = None" by (rule n(1)) simp
  have f1: "faults m (Suc (length (calls m))) = None" by (rule n(2)) simp
  have f2: "faults m (Suc (Suc (length (calls m)))) = None" by (rule n(3)) simp
  show ?thesis
    using f0 f1 f2
    by (simp add: apply_chill_profile_def bind_io_def decode_units_ok rdmsr_def tool_read_ok
      wrmsr_def tool_write_ok lift_io_def chill_encode Let_def)
qed

subsection \<open>cpu\_pl\_gui.py\<close>

lemma dptu_ok:
  "faults m (length (calls m)) = None \<Longrightarrow>
   decode_power_time_units m =
     (Inr (1 / 2 ^ nat (msrs m 0x606 AND 0xF), 1 / 2 ^ nat (drop_bit 4 (msrs m 0x606) AND 0xF)),
      m\<lparr>calls := calls m @ [Rdmsr 0x606]\<rparr>)"
  by (simp add: decode_power_time_units_def bind_io_def run_rdmsr_def tool_read_ok return_io_def Let_def)

lemma dptu_fail:
  "faults m (length (calls m)) = Some e \<Longrightarrow>
   decode_power_time_units m = (Inl e, m\<lparr>calls := calls m @ [Rdmsr 0x606]\<rparr>)"
  by (simp add: decode_power_time_units_def bind_io_def run_rdmsr_def tool_read_fail)

lemma dptu_result:
  assumes "fst (decode_power_time_units m) = Inr (pu, tu)"
  shows "faults m (length (calls m)) = None"
    and "pu = 1 / 2 ^ nat (msrs m 0x606 AND 0xF)"
    and "tu = 1 / 2 ^ nat (drop_bit 4 (msrs m 0x606) AND 0xF)"
proof -
  show f: "faults m (length (calls m)) = None"
  proof (cases "faults m (length (calls m))")
    case None then show ?thesis .
  next
    case (Some e)
    with assms show ?thesis by (simp add: dptu_fail)
  qed
  from assms show "pu = 1 / 2 ^ nat (msrs m 0x606 AND 0xF)"
    and "tu = 1 / 2 ^ nat (drop_bit 4 (msrs m 0x606) AND 0xF)"
    by (simp_all add: dptu_ok [OF f])
qed

lemma decode_pls_ok:
  "faults m (length (calls m)) = None \<Longrightarrow> faults m (Suc (length (calls m))) = None \<Longrightarrow>
   decode_pls m =
     (Inr (of_int ((msrs m 0x610 AND 0xFFFFFFFF) AND 0x7FFF) * (1 / 2 ^ nat (msrs m 0x606 AND 0xF)),
           of_int ((drop_bit 32 (msrs m 0x610) AND 0xFFFFFFFF) AND 0x7FFF) * (1 / 2 ^ nat (msrs m 0x606 AND 0xF)),
           1 / 2 ^ nat (drop_bit 4 (msrs m 0x606) AND 0xF) *
             2 ^ nat (drop_bit 17 (msrs m 0x610 AND 0xFFFFFFFF) AND 0x7F),
           msrs m 0x610),
      m\<lparr>calls := calls m @ [Rdmsr 0x606, Rdmsr 0x610]\<rparr>)"
  by (simp add: decode_pls_def bind_io_def dptu_ok run_rdmsr_def tool_read_ok return_io_def Let_def)

lemma decode_pls_fail_1:
  "faults m (length (calls m)) = Some e \<Longrightarrow>
   decode_pls m = (Inl e, m\<lparr>calls := calls m @ [Rdmsr 0x606]\<rparr>)"
  by (simp add: decode_pls_def bind_io_def dptu_fail)

lemma decode_pls_fail_2:
  "faults m (length (calls m)) = None \<Longrightarrow> faults m (Suc (length (calls m))) = Some e \<Longrightarrow>
   decode_pls m = (Inl e, m\<lparr>calls := calls m @ [Rdmsr 0x606, Rdmsr 0x610]\<rparr>)"
  by (simp add: decode_pls_def bind_io_def dptu_ok run_rdmsr_def tool_read_fail)

lemma decode_pls_result:
  assumes "fst (decode_pls m) = Inr (a, b, tau, old)"
  shows "faults m (length (calls m)) = None"
    and "faults m (Suc (length (calls m))) = None"
    and "old = msrs m 0x610"
    and "tau = 1 / 2 ^ nat (drop_bit 4 (msrs m 0x606) AND 0xF) *
               2 ^ nat (drop_bit 17 (msrs m 0x610 AND 0xFFFFFFFF) AND 0x7F)"
proof -
  show f0: "faults m (length (calls m)) = None"
  proof (cases "faults m (length (calls m))")
    case None then show ?thesis .
  next
    case (Some e)
    with assms show ?thesis by (simp add: decode_pls_fail_1)
  qed
  show f1: "faults m (Suc (length (calls m))) = None"
  proof (cases "faults m (Suc (length (calls m)))")
    case None then show ?thesis .
  next
    case (Some e)
    with assms f0 show ?thesis by (simp add: decode_pls_fail_2)
  qed
  from assms show "old = msrs m 0x610"
    and "tau = 1 / 2 ^ nat (drop_bit 4 (msrs m 0x606) AND 0xF) *
               2 ^ nat (drop_bit 17 (msrs m 0x610 AND 0xFFFFFFFF) AND 0x7F)"
    by (auto simp add: decode_pls_ok [OF f0 f1])
qed

lemma encode_pls_ok:
  "faults m (length (calls m)) = None \<Longrightarrow>
   watts_to_raw w1 (Finite (1 / 2 ^ nat (msrs m 0x606 AND 0xF))) = Inr r1 \<Longrightarrow>
   watts_to_raw w2 (Finite (1 / 2 ^ nat (msrs m 0x606 AND 0xF))) = Inr r2 \<Longrightarrow>
   encode_pls w1 w2 old m =
     (Inr (push_bit 32 (((drop_bit 32 old AND 0xFFFFFFFF) AND NOT 0x7FFF) OR (r2 AND 0x7FFF))
           OR (((old AND 0xFFFFFFFF) AND NOT 0x7FFF) OR (r1 AND 0x7FFF))),
      m\<lparr>calls := calls m @ [Rdmsr 0x606]\<rparr>)"
  by (simp add: encode_pls_def bind_io_def dptu_ok lift_io_def return_io_def Let_def)

lemma encode_pls_fail:
  "faults m (length (calls m)) = Some e \<Longrightarrow>
   encode_pls w1 w2 old m = (Inl e, m\<lparr>calls := calls m @ [Rdmsr 0x606]\<rparr>)"
  by (simp add: encode_pls_def bind_io_def dptu_fail)

lemma encode_pls_result:
  assumes "fst (encode_pls w1 w2 old m) = Inr v"
  shows "faults m (length (calls m)) = None"
    and "\<exists>r1 r2.
      watts_to_raw w1 (Finite (1 / 2 ^ nat (msrs m 0x606 AND 0xF))) = Inr r1 \<and>
      watts_to_raw w2 (Finite (1 / 2 ^ nat (msrs m 0x606 AND 0xF))) = Inr r2 \<and>
      v = push_bit 32 (((drop_bit 32 old AND 0xFFFFFFFF) AND NOT 0x7FFF) OR (r2 AND 0x7FFF))
           OR (((old AND 0xFFFFFFFF) AND NOT 0x7FFF) OR (r1 AND 0x7FFF))"
proof -
  show f: "faults m (length (calls m)) = None"
  proof (cases "faults m (length (calls m))")
    case None then show ?thesis .
  next
    case (Some e)
    with assms show ?thesis by (simp add: encode_pls_fail)
  qed
  from assms show "\<exists>r1 r2.
      watts_to_raw w1 (Finite (1 / 2 ^ nat (msrs m 0x606 AND 0xF))) = Inr r1 \<and>
      watts_to_raw w2 (Finite (1 / 2 ^ nat (msrs m 0x606 AND 0xF))) = Inr r2 \<and>
      v = push_bit 32 (((drop_bit 32 old AND 0xFFFFFFFF) AND NOT 0x7FFF) OR (r2 AND 0x7FFF))
           OR (((old AND 0xFFFFFFFF) AND NOT 0x7FFF) OR (r1 AND 0x7FFF))"
    by (auto simp add: encode_pls_def bind_io_def dptu_ok [OF f] lift_io_def return_io_def
        Let_def split: sum.splits)
qed

text \<open>
  The raw values of the catalogue: every wattage of \<open>PROFILES\<close> is a multiple of one
  half, so its quotient by a unit scale is computed exactly and \<open>round\<close> returns.
\<close>

lemma profiles_halves:
  assumes "find (\<lambda>p. fst p = name) PROFILES = Some (nm, pl1, pl2)"
  shows "\<exists>n1 n2. 0 < n1 \<and> n1 < 2 ^ 37 \<and> pl1 = of_int n1 / 2 \<and>
                 0 < n2 \<and> n2 < 2 ^ 37 \<and> pl2 = of_int n2 / 2"
proof -
  have h: "\<exists>n. 0 < n \<and> n < 2 ^ 37 \<and> (w :: rat) = of_int n / 2"
    if "w * 2 = of_int k" "0 < k" "k < 100" for w and k :: int
    using that by (intro exI [of _ k]) simp
  from assms have "(pl1 = 12 \<or> pl1 = 20 \<or> pl1 = 23 \<or> pl1 = 55 / 2 \<or> pl1 = 30) \<and>
      (pl2 = 20 \<or> pl2 = 28 \<or> pl2 = 32 \<or> pl2 = 40 \<or> pl2 = 45)"
    by (auto simp add: PROFILES_def split: if_splits)
  then have "(\<exists>n. 0 < n \<and> n < 2 ^ 37 \<and> pl1 = of_int n / 2) \<and>
      (\<exists>n. 0 < n \<and> n < 2 ^ 37 \<and> pl2 = of_int n / 2)"
    using h [of pl1 24] h [of pl1 40] h [of pl1 46] h [of pl1 55] h [of pl1 60]
      h [of pl2 40] h [of pl2 56] h [of pl2 64] h [of pl2 80] h [of pl2 90]
    by auto
  then show ?thesis by blast
qed

lemma profile_raw:
  assumes "find (\<lambda>p. fst p = name) PROFILES = Some (nm, pl1, pl2)" and "p < 16"
  shows "watts_to_raw (Finite pl1) (Finite (1 / 2 ^ p)) = Inr (round_half_even (pl1 * 2 ^ p))"
    and "watts_to_raw (Finite pl2) (Finite (1 / 2 ^ p)) = Inr (round_half_even (pl2 * 2 ^ p))"
proof -
  from profiles_halves [OF assms(1)] obtain n1 n2 where
    n1: "0 < n1" "n1 < 2 ^ 37" "pl1 = of_int n1 / 2" and
    n2: "0 < n2" "n2 < 2 ^ 37" "pl2 = of_int n2 / 2" by blast
  show "watts_to_raw (Finite pl1) (Finite (1 / 2 ^ p)) = Inr (round_half_even (pl1 * 2 ^ p))"
    unfolding n1(3) watts_to_raw_def py_round_def
      preset_quotient_exact [OF n1(1,2) assms(2)] by simp
  show "watts_to_raw (Finite pl2) (Finite (1 / 2 ^ p)) = Inr (round_half_even (pl2 * 2 ^ p))"
    unfolding n2(3) watts_to_raw_def py_round_def
      preset_quotient_exact [OF n2(1,2) assms(2)] by simp
qed

lemma profile_encode_returns:
  assumes "find (\<lambda>p. fst p = name) PROFILES = Some (nm, pl1, pl2)"
    and "faults m (length (calls m)) = None"
  shows "\<exists>v. fst (encode_pls (Finite pl1) (Finite pl2) old m) = Inr v"
  using encode_pls_ok [OF assms(2) profile_raw [OF assms(1) exponent_lt_16]]
  by simp

lemma apply_profile_fail_1:
  "find (\<lambda>p. fst p = name) PROFILES = Some (nm, pl1, pl2) \<Longrightarrow>
   faults m (length (calls m)) = Some e \<Longrightarrow>
   apply_profile name m =
     m\<lparr>calls := calls m @ [Rdmsr 0x606],
       outputs := outputs m @ [ShowError ''Error applying profile'' e]\<rparr>"
  by (simp add: apply_profile_def bind_io_def decode_pls_fail_1)

lemma apply_profile_fail_2:
  "find (\<lambda>p. fst p = name) PROFILES = Some (nm, pl1, pl2) \<Longrightarrow>
   faults m (length (calls m)) = None \<Longrightarrow> faults m (Suc (length (calls m))) = Some e \<Longrightarrow>
   apply_profile name m =
     m\<lparr>calls := calls m @ [Rdmsr 0x606, Rdmsr 0x610],
       outputs := outputs m @ [ShowError ''Error applying profile'' e]\<rparr>"
  by (simp add: apply_profile_def bind_io_def decode_pls_fail_2)

lemma apply_profile_fail_3:
  "find (\<lambda>p. fst p = name) PROFILES = Some (nm, pl1, pl2) \<Longrightarrow>
   faults m (length (calls m)) = None \<Longrightarrow> faults m (Suc (length (calls m))) = None \<Longrightarrow>
   faults m (Suc (Suc (length (calls m)))) = Some e \<Longrightarrow>
   apply_profile name m =
     m\<lparr>calls := calls m @ [Rdmsr 0x606, Rdmsr 0x610, Rdmsr 0x606],
       outputs := outputs m @ [ShowError ''Error applying profile'' e]\<rparr>"
  by (simp add: apply_profile_def bind_io_def decode_pls_ok encode_pls_fail)

lemma update_current_label_ok:
  "faults m (length (calls m)) = None \<Longrightarrow> faults m (Suc (length (calls m))) = None \<Longrightarrow>
   update_current_label m =
     m\<lparr>calls := calls m @ [Rdmsr 0x606, Rdmsr 0x610],
       outputs := outputs m @
         [LabelConfig
            (of_int ((msrs m 0x610 AND 0xFFFFFFFF) AND 0x7FFF) * (1 / 2 ^ nat (msrs m 0x606 AND 0xF)))
            (of_int ((drop_bit 32 (msrs m 0x610) AND 0xFFFFFFFF) AND 0x7FFF) * (1 / 2 ^ nat (msrs m 0x606 AND 0xF)))
            (1 / 2 ^ nat (drop_bit 4 (msrs m 0x606) AND 0xF) *
               2 ^ nat (drop_bit 17 (msrs m 0x610 AND 0xFFFFFFFF) AND 0x7F))]\<rparr>"
  by (simp add: update_current_label_def decode_pls_ok)

lemma apply_profile_reads_ok:
  assumes "find (\<lambda>p. fst p = name) PROFILES = Some (nm, pl1, pl2)"
    and "faults m (length (calls m)) = None"
    and "faults m (Suc (length (calls m))) = None"
    and "faults m (Suc (Suc (length (calls m)))) = None"
    and "fst (encode_pls (Finite pl1) (Finite pl2) (msrs m 0x610) m) = Inr v"
  shows "apply_profile name m =
     (case faults m (Suc (Suc (Suc (length (calls m))))) of
        Some e \<Rightarrow>
          m\<lparr>calls := calls m @ [Rdmsr 0x606, Rdmsr 0x610, Rdmsr 0x606, Wrmsr 0x610 v],
            outputs := outputs m @ [ShowError ''Error applying profile'' e]\<rparr>
      | None \<Rightarrow>
          update_current_label
            (m\<lparr>calls := calls m @ [Rdmsr 0x606, Rdmsr 0x610, Rdmsr 0x606, Wrmsr 0x610 v],
               msrs := (msrs m)(0x610 := v)\<rparr>))"
proof -
  from encode_pls_result(2) [OF assms(5)] obtain r1 r2 where
    r1: "watts_to_raw (Finite pl1) (Finite (1 / 2 ^ nat (msrs m 0x606 AND 0xF))) = Inr r1" and
    r2: "watts_to_raw (Finite pl2) (Finite (1 / 2 ^ nat (msrs m 0x606 AND 0xF))) = Inr r2" and
    v: "v = push_bit 32 (((drop_bit 32 (msrs m 0x610) AND 0xFFFFFFFF) AND NOT 0x7FFF) OR
                        (r2 AND 0x7FFF))
           OR (((msrs m 0x610 AND 0xFFFFFFFF) AND NOT 0x7FFF) OR (r1 AND 0x7FFF))"
    by blast
  show ?thesis
    using assms(1-4) r1 r2 unfolding v
    by (simp add: apply_profile_def bind_io_def decode_pls_ok encode_pls_ok
        run_wrmsr_def tool_write_def Let_def split: option.split)
qed

lemma apply_profile_all_ok:
  assumes p: "find (\<lambda>p. fst p = name) PROFILES = Some (nm, pl1, pl2)"
    and f: "\<forall>k<6. faults m (length (calls m) + k) = None"
    and v: "fst (encode_pls (Finite pl1) (Finite pl2) (msrs m 0x610) m) = Inr v"
  shows "apply_profile name m =
     m\<lparr>calls := calls m @
          [Rdmsr 0x606, Rdmsr 0x610, Rdmsr 0x606, Wrmsr 0x610 v, Rdmsr 0x606, Rdmsr 0x610],
       msrs := (msrs m)(0x610 := v),
       outputs := outputs m @
         [LabelConfig
            (of_int ((v AND 0xFFFFFFFF) AND 0x7FFF) * (1 / 2 ^ nat (msrs m 0x606 AND 0xF)))
            (of_int ((drop_bit 32 v AND 0xFFFFFFFF) AND 0x7FFF) * (1 / 2 ^ nat (msrs m 0x606 AND 0xF)))
            (1 / 2 ^ nat (drop_bit 4 (msrs m 0x606) AND 0xF) *
               2 ^ nat (drop_bit 17 (v AND 0xFFFFFFFF) AND 0x7F))]\<rparr>"
proof -
  note n = no_fault_Suc [OF f]
  have f0: "faults m (length (calls m)) = None" by (rule n(1)) simp
  have f1: "faults m (Suc (length (calls m))) = None" by (rule n(2)) simp
  have f2: "faults m (Suc (Suc (length (calls m)))) = None" by (rule n(3)) simp
  have f3: "faults m (Suc (Suc (Suc (length (calls m))))) = None" by (rule n(4)) simp
  have f4: "faults m (Suc (Suc (Suc (Suc (length (calls m)))))) = None" by (rule n(5)) simp
  have f5: "faults m (Suc (Suc (Suc (Suc (Suc (length (calls m))))))) = None" by (rule n(6)) simp
  define m4 where "m4 = m\<lparr>calls := calls m @ [Rdmsr 0x606, Rdmsr 0x610, Rdmsr 0x606, Wrmsr 0x610 v],
               msrs := (msrs m)(0x610 := v)\<rparr>"
  have a: "apply_profile name m = update_current_label m4"
    unfolding m4_def using apply_profile_reads_ok [OF p f0 f1 f2 v] by (simp add: f3)
  have g4: "faults m4 (length (calls m4)) = None" by (simp add: m4_def f4)
  have g5: "faults m4 (Suc (length (calls m4))) = None" by (simp add: m4_def f5)
  show ?thesis
    unfolding a update_current_label_ok [OF g4 g5]
    by (simp add: m4_def)
qed

section \<open>The limit-field encoders\<close>

lemma raw_power_finite:
  "py_truediv watts power_unit = Inr (Finite q) \<Longrightarrow>
   \<exists>raw. raw_power watts power_unit = Inr raw"
  by (simp add: raw_power_def py_int_def)

text \<open>
  C2. Whatever the wattage, the encoders change bits 0 to 14 of a half only.
  \<open>encode_power_field\<close> returns whenever the quotient \<open>watts / power_unit\<close> is a finite
  float, in particular for every wattage whose raw value fits in 15 bits, and the value
  it returns has the bits of \<open>original_half\<close> from bit 15 upwards (so bits 15 to 31 of a
  32-bit half). The value \<open>encode_pls\<close> returns has, in each of its two 32-bit halves,
  the bits from 15 upwards of the corresponding half of the old register value.
\<close>

theorem encode_changes_only_limit_bits:
  "(py_truediv desired_watts power_unit = Inr (Finite q) \<longrightarrow>
      (\<exists>r. encode_power_field original_half desired_watts power_unit = Inr r \<and>
           (\<forall>i. 15 \<le> i \<longrightarrow> bit r i = bit original_half i))) \<and>
   (fst (encode_pls pl1_w pl2_w old m) = Inr v \<longrightarrow>
      (\<forall>i. 15 \<le> i \<longrightarrow>
         bit (v AND 0xFFFFFFFF) i = bit (old AND 0xFFFFFFFF) i \<and>
         bit (drop_bit 32 v AND 0xFFFFFFFF) i = bit (drop_bit 32 old AND 0xFFFFFFFF) i))"
proof (intro conjI impI)
  assume "py_truediv desired_watts power_unit = Inr (Finite q)"
  from raw_power_finite [OF this] obtain raw where
    "raw_power desired_watts power_unit = Inr raw" by blast
  then have "encode_power_field original_half desired_watts power_unit =
      Inr ((original_half AND NOT 0x7FFF) OR (raw AND 0x7FFF))"
    by (rule encode_power_field_Inr)
  moreover have "\<forall>i. 15 \<le> i \<longrightarrow>
      bit ((original_half AND NOT 0x7FFF) OR (raw AND 0x7FFF)) i = bit original_half i"
    by (simp only: bit_patch) simp
  ultimately show "\<exists>r. encode_power_field original_half desired_watts power_unit = Inr r \<and>
           (\<forall>i. 15 \<le> i \<longrightarrow> bit r i = bit original_half i)"
    by blast
next
  assume "fst (encode_pls pl1_w pl2_w old m) = Inr v"
  from encode_pls_result(2) [OF this] obtain r1 r2 where
    "v = push_bit 32 (((drop_bit 32 old AND 0xFFFFFFFF) AND NOT 0x7FFF) OR (r2 AND 0x7FFF))
           OR (((old AND 0xFFFFFFFF) AND NOT 0x7FFF) OR (r1 AND 0x7FFF))"
    by blast
  note b = new_pkg_bits [OF this]
  show "\<forall>i. 15 \<le> i \<longrightarrow>
         bit (v AND 0xFFFFFFFF) i = bit (old AND 0xFFFFFFFF) i \<and>
         bit (drop_bit 32 v AND 0xFFFFFFFF) i = bit (drop_bit 32 old AND 0xFFFFFFFF) i"
    unfolding mask32 by (auto simp add: bit_simps b)
qed

theorem encode_changes_only_limit_bits_witness:
  "py_truediv (Finite 20) (Finite (1 / 8)) = Inr (Finite 160) \<and>
   (\<exists>r. encode_power_field 0x00088000 (Finite 20) (Finite (1 / 8)) = Inr r \<and>
        bit r 19 = bit (0x00088000 :: int) 19) \<and>
   fst (encode_pls (Finite 20) (Finite 28) 0x8000AAAA00088000
          \<lparr>msrs = (\<lambda>_. 0)(0x606 := 3), faults = (\<lambda>_. None), calls = [], outputs = []\<rparr>)
     = Inr 0x800080E0000880A0 \<and>
   bit ((0x800080E0000880A0 :: int) AND 0xFFFFFFFF) 19 = bit ((0x8000AAAA00088000 :: int) AND 0xFFFFFFFF) 19 \<and>
   bit (drop_bit 32 (0x800080E0000880A0 :: int) AND 0xFFFFFFFF) 31 =
     bit (drop_bit 32 (0x8000AAAA00088000 :: int) AND 0xFFFFFFFF) 31"
proof -
  have h1: "py_truediv (Finite 20) (Finite (1 / 8)) = Inr (Finite 160)" by code_simp
  have h2: "fst (encode_pls (Finite 20) (Finite 28) 0x8000AAAA00088000
          \<lparr>msrs = (\<lambda>_. 0)(0x606 := 3), faults = (\<lambda>_. None), calls = [], outputs = []\<rparr>)
     = Inr 0x800080E0000880A0"
    by code_simp
  note T = encode_changes_only_limit_bits [of "Finite 20" "Finite (1 / 8)" 160 "0x00088000"
      "Finite 20" "Finite 28" "0x8000AAAA00088000"
      "\<lparr>msrs = (\<lambda>_. 0)(0x606 := 3), faults = (\<lambda>_. None), calls = [], outputs = []\<rparr>"
      "0x800080E0000880A0"]
  have A: "\<exists>r. encode_power_field 0x00088000 (Finite 20) (Finite (1 / 8)) = Inr r \<and>
           (\<forall>i. 15 \<le> i \<longrightarrow> bit r i = bit (0x00088000 :: int) i)"
    and B: "\<forall>i. 15 \<le> i \<longrightarrow>
         bit ((0x800080E0000880A0 :: int) AND 0xFFFFFFFF) i = bit ((0x8000AAAA00088000 :: int) AND 0xFFFFFFFF) i \<and>
         bit (drop_bit 32 (0x800080E0000880A0 :: int) AND 0xFFFFFFFF) i =
           bit (drop_bit 32 (0x8000AAAA00088000 :: int) AND 0xFFFFFFFF) i"
    using T [THEN conjunct1, THEN mp, OF h1] T [THEN conjunct2, THEN mp, OF h2] by this+
  from A obtain r where r: "encode_power_field 0x00088000 (Finite 20) (Finite (1 / 8)) = Inr r"
    "\<forall>i. 15 \<le> i \<longrightarrow> bit r i = bit (0x00088000 :: int) i" by blast
  from r(2) have "bit r 19 = bit (0x00088000 :: int) 19" by (rule allE [of _ 19]) simp
  with r(1) have C: "\<exists>r. encode_power_field 0x00088000 (Finite 20) (Finite (1 / 8)) = Inr r \<and>
      bit r 19 = bit (0x00088000 :: int) 19" by blast
  from B have D: "bit ((0x800080E0000880A0 :: int) AND 0xFFFFFFFF) 19 = bit ((0x8000AAAA00088000 :: int) AND 0xFFFFFFFF) 19"
    by (rule allE [of _ 19]) simp
  from B have E: "bit (drop_bit 32 (0x800080E0000880A0 :: int) AND 0xFFFFFFFF) 31 =
     bit (drop_bit 32 (0x8000AAAA00088000 :: int) AND 0xFFFFFFFF) 31"
    by (rule allE [of _ 31]) simp
  from h1 C h2 D E show ?thesis by blast
qed

text \<open>
  C9. The second end-to-end scenario: from the half \<open>0x00088000\<close>, a power unit of
  \<open>0.125\<close> W and a request of \<open>20.0\<close> W, \<open>encode_power_field\<close> computes the raw value
  \<open>160 = 0xA0\<close> and returns \<open>0x000880A0\<close>; bits 15 (enable) and 16 (clamp) of the result
  are those of the input and the limit field is \<open>0xA0\<close>. \<open>encode_pls\<close>, run with a unit
  register whose power exponent is 3, computes the same raw value and the same lower
  half.
\<close>

theorem encode_scenario_2:
  "raw_power (Finite 20) (Finite (1 / 8)) = Inr 160 \<and>
   encode_power_field 0x00088000 (Finite 20) (Finite (1 / 8)) = Inr 0x000880A0 \<and>
   bit (0x000880A0 :: int) 15 = bit (0x00088000 :: int) 15 \<and>
   bit (0x000880A0 :: int) 16 = bit (0x00088000 :: int) 16 \<and>
   (0x000880A0 :: int) AND 0x7FFF = 0xA0 \<and>
   watts_to_raw (Finite 20) (Finite (1 / 8)) = Inr 160 \<and>
   fst (encode_pls (Finite 20) (Finite 28) 0x00088000
          \<lparr>msrs = (\<lambda>_. 0)(0x606 := 3), faults = (\<lambda>_. None), calls = [], outputs = []\<rparr>)
     = Inr 0xE0000880A0 \<and>
   (0xE0000880A0 :: int) AND 0xFFFFFFFF = 0x000880A0"
  by code_simp

text \<open>
  C10. An encoded half stays inside its half. From a half in \<open>[0, 2^32)\<close>,
  \<open>encode_power_field\<close> returns, whenever the quotient \<open>watts / power_unit\<close> is a finite
  float (of either sign), a value in \<open>[0, 2^32)\<close>. Hence in the value \<open>(hi << 32) | lo\<close>
  that \<open>apply_chill_profile\<close> writes, and in the value \<open>encode_pls\<close> returns, the low 32
  bits are exactly the new lower half and the bits above them exactly the new upper
  half: neither encoding reaches into the other slot.
\<close>

theorem encoded_half_stays_in_its_half:
  "(0 \<le> original_half \<and> original_half < 2 ^ 32 \<and>
    py_truediv desired_watts power_unit = Inr (Finite q) \<longrightarrow>
      (\<exists>r. encode_power_field original_half desired_watts power_unit = Inr r \<and>
           0 \<le> r \<and> r < 2 ^ 32)) \<and>
   (faults m (length (calls m)) = None \<and> faults m (Suc (length (calls m))) = None \<longrightarrow>
      (\<exists>lo' hi'.
         encode_power_field (msrs m 0x610 AND 0xFFFFFFFF) (Finite 20)
           (Finite (1 / 2 ^ nat (msrs m 0x606 AND 0xF))) = Inr lo' \<and>
         encode_power_field (drop_bit 32 (msrs m 0x610) AND 0xFFFFFFFF) (Finite 28)
           (Finite (1 / 2 ^ nat (msrs m 0x606 AND 0xF))) = Inr hi' \<and>
         calls (snd (apply_chill_profile m)) =
           calls m @ [Rdmsr 0x606, Rdmsr 0x610, Wrmsr 0x610 (push_bit 32 hi' OR lo')] \<and>
         (push_bit 32 hi' OR lo') AND 0xFFFFFFFF = lo' \<and>
         drop_bit 32 (push_bit 32 hi' OR lo') = hi')) \<and>
   (fst (encode_pls pl1_w pl2_w old m) = Inr v \<longrightarrow>
      (\<exists>pl1_raw pl2_raw.
         watts_to_raw pl1_w (Finite (1 / 2 ^ nat (msrs m 0x606 AND 0xF))) = Inr pl1_raw \<and>
         watts_to_raw pl2_w (Finite (1 / 2 ^ nat (msrs m 0x606 AND 0xF))) = Inr pl2_raw \<and>
         v AND 0xFFFFFFFF = ((old AND 0xFFFFFFFF) AND NOT 0x7FFF) OR (pl1_raw AND 0x7FFF) \<and>
         drop_bit 32 v =
           ((drop_bit 32 old AND 0xFFFFFFFF) AND NOT 0x7FFF) OR (pl2_raw AND 0x7FFF)))"
proof (intro conjI impI)
  assume a: "0 \<le> original_half \<and> original_half < 2 ^ 32 \<and>
    py_truediv desired_watts power_unit = Inr (Finite q)"
  then have "py_truediv desired_watts power_unit = Inr (Finite q)" by simp
  from raw_power_finite [OF this] obtain raw where
    "raw_power desired_watts power_unit = Inr raw" by blast
  then have "encode_power_field original_half desired_watts power_unit =
      Inr ((original_half AND NOT 0x7FFF) OR (raw AND 0x7FFF))"
    by (rule encode_power_field_Inr)
  moreover from a have "0 \<le> original_half" and "original_half < 2 ^ 32" by simp_all
  note patch_range [OF this, of raw]
  ultimately show "\<exists>r. encode_power_field original_half desired_watts power_unit = Inr r \<and>
      0 \<le> r \<and> r < 2 ^ 32"
    by blast
next
  assume a: "faults m (length (calls m)) = None \<and> faults m (Suc (length (calls m))) = None"
  define p where "p = nat (msrs m 0x606 AND 0xF)"
  define lo where "lo = msrs m 0x610 AND 0xFFFFFFFF"
  define hi where "hi = drop_bit 32 (msrs m 0x610) AND 0xFFFFFFFF"
  define lo' where "lo' = (lo AND NOT 0x7FFF) OR ((20 * 2 ^ p) AND 0x7FFF)"
  define hi' where "hi' = (hi AND NOT 0x7FFF) OR ((28 * 2 ^ p) AND 0x7FFF)"
  have e1: "encode_power_field lo (Finite 20) (Finite (1 / 2 ^ p)) = Inr lo'"
    unfolding lo'_def p_def by (rule chill_encode(1))
  have e2: "encode_power_field hi (Finite 28) (Finite (1 / 2 ^ p)) = Inr hi'"
    unfolding hi'_def p_def by (rule chill_encode(2))
  have c: "calls (snd (apply_chill_profile m)) =
      calls m @ [Rdmsr 0x606, Rdmsr 0x610, Wrmsr 0x610 (push_bit 32 hi' OR lo')]"
    unfolding hi'_def lo'_def hi_def lo_def p_def
    using a by (intro chill_calls) simp_all
  have "0 \<le> lo \<and> lo < 2 ^ 32" unfolding lo_def by (rule and32_range)
  then have "0 \<le> lo' \<and> lo' < 2 ^ 32"
    unfolding lo'_def using patch_range by blast
  then have "(push_bit 32 hi' OR lo') AND 0xFFFFFFFF = lo'"
    and "drop_bit 32 (push_bit 32 hi' OR lo') = hi'"
    using combine_halves by blast+
  with e1 e2 c show "\<exists>lo' hi'.
         encode_power_field (msrs m 0x610 AND 0xFFFFFFFF) (Finite 20)
           (Finite (1 / 2 ^ nat (msrs m 0x606 AND 0xF))) = Inr lo' \<and>
         encode_power_field (drop_bit 32 (msrs m 0x610) AND 0xFFFFFFFF) (Finite 28)
           (Finite (1 / 2 ^ nat (msrs m 0x606 AND 0xF))) = Inr hi' \<and>
         calls (snd (apply_chill_profile m)) =
           calls m @ [Rdmsr 0x606, Rdmsr 0x610, Wrmsr 0x610 (push_bit 32 hi' OR lo')] \<and>
         (push_bit 32 hi' OR lo') AND 0xFFFFFFFF = lo' \<and>
         drop_bit 32 (push_bit 32 hi' OR lo') = hi'"
    unfolding lo_def hi_def p_def by blast
next
  assume a: "fst (encode_pls pl1_w pl2_w old m) = Inr v"
  from encode_pls_result(2) [OF a] obtain r1 r2 where
    r1: "watts_to_raw pl1_w (Finite (1 / 2 ^ nat (msrs m 0x606 AND 0xF))) = Inr r1" and
    r2: "watts_to_raw pl2_w (Finite (1 / 2 ^ nat (msrs m 0x606 AND 0xF))) = Inr r2" and
    v0: "v = push_bit 32 (((drop_bit 32 old AND 0xFFFFFFFF) AND NOT 0x7FFF) OR (r2 AND 0x7FFF))
           OR (((old AND 0xFFFFFFFF) AND NOT 0x7FFF) OR (r1 AND 0x7FFF))"
    by blast
  define lo where "lo = old AND 0xFFFFFFFF"
  define hi where "hi = drop_bit 32 old AND 0xFFFFFFFF"
  define lo' where "lo' = (lo AND NOT 0x7FFF) OR (r1 AND 0x7FFF)"
  define hi' where "hi' = (hi AND NOT 0x7FFF) OR (r2 AND 0x7FFF)"
  have v: "v = push_bit 32 hi' OR lo'"
    unfolding hi'_def lo'_def hi_def lo_def by (rule v0)
  have "0 \<le> lo \<and> lo < 2 ^ 32" unfolding lo_def by (rule and32_range)
  then have "0 \<le> lo' \<and> lo' < 2 ^ 32"
    unfolding lo'_def using patch_range by blast
  then have "v AND 0xFFFFFFFF = lo'" and "drop_bit 32 v = hi'"
    unfolding v using combine_halves by blast+
  with r1 r2 show "\<exists>pl1_raw pl2_raw.
         watts_to_raw pl1_w (Finite (1 / 2 ^ nat (msrs m 0x606 AND 0xF))) = Inr pl1_raw \<and>
         watts_to_raw pl2_w (Finite (1 / 2 ^ nat (msrs m 0x606 AND 0xF))) = Inr pl2_raw \<and>
         v AND 0xFFFFFFFF = ((old AND 0xFFFFFFFF) AND NOT 0x7FFF) OR (pl1_raw AND 0x7FFF) \<and>
         drop_bit 32 v =
           ((drop_bit 32 old AND 0xFFFFFFFF) AND NOT 0x7FFF) OR (pl2_raw AND 0x7FFF)"
    unfolding lo'_def hi'_def lo_def hi_def by blast
qed

theorem encoded_half_stays_in_its_half_witness:
  "(0 \<le> (0x00088000 :: int) \<and> (0x00088000 :: int) < 2 ^ 32 \<and>
    py_truediv (Finite 20) (Finite (1 / 8)) = Inr (Finite 160)) \<and>
   (\<exists>r. encode_power_field 0x00088000 (Finite 20) (Finite (1 / 8)) = Inr r \<and>
        0 \<le> r \<and> r < 2 ^ 32) \<and>
   (\<exists>lo' hi'.
      calls (snd (apply_chill_profile
        \<lparr>msrs = (\<lambda>_. 0)(0x606 := 3, 0x610 := 0x8000AAAA00088000), faults = (\<lambda>_. None),
         calls = [], outputs = []\<rparr>)) =
        [Rdmsr 0x606, Rdmsr 0x610, Wrmsr 0x610 (push_bit 32 hi' OR lo')] \<and>
      (push_bit 32 hi' OR lo') AND 0xFFFFFFFF = lo' \<and>
      drop_bit 32 (push_bit 32 hi' OR lo') = hi') \<and>
   fst (encode_pls (Finite 20) (Finite 28) 0x8000AAAA00088000
     \<lparr>msrs = (\<lambda>_. 0)(0x606 := 3, 0x610 := 0x8000AAAA00088000), faults = (\<lambda>_. None),
      calls = [], outputs = []\<rparr>) = Inr 0x800080E0000880A0 \<and>
   (\<exists>pl1_raw pl2_raw.
      (0x800080E0000880A0 :: int) AND 0xFFFFFFFF =
        ((0x8000AAAA00088000 AND 0xFFFFFFFF) AND NOT 0x7FFF) OR (pl1_raw AND 0x7FFF) \<and>
      drop_bit 32 (0x800080E0000880A0 :: int) =
        ((drop_bit 32 0x8000AAAA00088000 AND 0xFFFFFFFF) AND NOT 0x7FFF) OR (pl2_raw AND 0x7FFF))"
proof -
  let ?M = "\<lparr>msrs = (\<lambda>_. 0)(0x606 := 3, 0x610 := 0x8000AAAA00088000), faults = (\<lambda>_. None),
      calls = [], outputs = []\<rparr>"
  note T = encoded_half_stays_in_its_half [of "0x00088000" "Finite 20" "Finite (1 / 8)" 160 ?M
      "Finite 20" "Finite 28" "0x8000AAAA00088000" "0x800080E0000880A0"]
  have h1: "0 \<le> (0x00088000 :: int) \<and> (0x00088000 :: int) < 2 ^ 32 \<and>
      py_truediv (Finite 20) (Finite (1 / 8)) = Inr (Finite 160)"
    by code_simp
  have h2: "faults ?M (length (calls ?M)) = None \<and> faults ?M (Suc (length (calls ?M))) = None"
    by simp
  have h3: "fst (encode_pls (Finite 20) (Finite 28) 0x8000AAAA00088000 ?M) = Inr 0x800080E0000880A0"
    by code_simp
  have c: "calls ?M = []" by simp
  from T [THEN conjunct1, THEN mp, OF h1]
    T [THEN conjunct2, THEN conjunct1, THEN mp, OF h2, unfolded c]
    T [THEN conjunct2, THEN conjunct2, THEN mp, OF h3] h1 h3
  show ?thesis by (simp only: append_Nil) blast
qed




text \<open>
  C5. \<open>encode_pls\<close> converts with \<open>round\<close>, \<open>encode_power_field\<close> with \<open>int\<close>, which
  truncates. For a request of 20.09375 W at 0.125 W per step the quotient is 160.75:
  \<open>encode_pls\<close> computes the raw value 161, \<open>encode_power_field\<close> the raw value 160.
\<close>

theorem raw_power_truncates:
  "py_truediv (Finite (643 / 32)) (Finite (1 / 8)) = Inr (Finite (643 / 4)) \<and>
   raw_power (Finite (643 / 32)) (Finite (1 / 8)) = Inr 160 \<and>
   py_round (Finite (643 / 4)) = Inr 161 \<and>
   watts_to_raw (Finite (643 / 32)) (Finite (1 / 8)) = Inr 161 \<and>
   encode_power_field 0x00088000 (Finite (643 / 32)) (Finite (1 / 8)) = Inr 0x000880A0"
  by code_simp

section \<open>The unit and limit decoders\<close>

text \<open>
  C4. A unit register with power exponent 3 in bits 0 to 3 and time exponent 10 in bits
  16 to 19 (the value \<open>0xA0E03\<close>): \<open>decode_units\<close> yields the time unit \<open>2^-10\<close>, but
  \<open>decode_power_time_units\<close> takes the time exponent from bits 4 to 7, which are 0 here,
  and yields the time unit 1.
\<close>

theorem time_exponent_counterexample:
  "(0xA0E03 :: int) mod 16 = 3 \<and> (0xA0E03 :: int) div 2 ^ 16 mod 16 = 10 \<and>
   fst (decode_units
     \<lparr>msrs = (\<lambda>_. 0)(0x606 := 0xA0E03), faults = (\<lambda>_. None), calls = [], outputs = []\<rparr>)
     = Inr (1 / 2 ^ 3, 1 / 2 ^ 10) \<and>
   fst (decode_power_time_units
     \<lparr>msrs = (\<lambda>_. 0)(0x606 := 0xA0E03), faults = (\<lambda>_. None), calls = [], outputs = []\<rparr>)
     = Inr (1 / 2 ^ 3, 1) \<and>
   (1 :: rat) \<noteq> 1 / 2 ^ 10"
  by code_simp

text \<open>
  C4, as the programs behave. When the read of the unit register succeeds, both decoders
  yield the power unit \<open>2^-p\<close> for the exponent \<open>p\<close> in bits 0 to 3. \<open>decode_units\<close>
  yields the time unit \<open>2^-t\<close> for the exponent \<open>t\<close> in bits 16 to 19;
  \<open>decode_power_time_units\<close> yields \<open>2^-s\<close> for the four bits \<open>s\<close> at 4 to 7.
\<close>

theorem unit_scale_exponents:
  "faults m (length (calls m)) = None \<longrightarrow>
     fst (decode_units m) =
       Inr (1 / 2 ^ nat (msrs m 0x606 mod 16), 1 / 2 ^ nat (msrs m 0x606 div 2 ^ 16 mod 16)) \<and>
     fst (decode_power_time_units m) =
       Inr (1 / 2 ^ nat (msrs m 0x606 mod 16), 1 / 2 ^ nat (msrs m 0x606 div 2 ^ 4 mod 16))"
  by (simp add: decode_units_ok dptu_ok and_mask4 drop_bit_eq_div)

theorem unit_scale_exponents_witness:
  "fst (decode_units
     \<lparr>msrs = (\<lambda>_. 0)(0x606 := 0xA0E03), faults = (\<lambda>_. None), calls = [], outputs = []\<rparr>)
     = Inr (1 / 2 ^ nat (0xA0E03 mod 16), 1 / 2 ^ nat (0xA0E03 div 2 ^ 16 mod 16)) \<and>
   fst (decode_power_time_units
     \<lparr>msrs = (\<lambda>_. 0)(0x606 := 0xA0E03), faults = (\<lambda>_. None), calls = [], outputs = []\<rparr>)
     = Inr (1 / 2 ^ nat (0xA0E03 mod 16), 1 / 2 ^ nat (0xA0E03 div 2 ^ 4 mod 16))"
proof -
  let ?M = "\<lparr>msrs = (\<lambda>_. 0)(0x606 := 0xA0E03), faults = (\<lambda>_. None), calls = [],
    outputs = []\<rparr>"
  have h: "faults ?M (length (calls ?M)) = None" by simp
  have m: "msrs ?M 0x606 = 0xA0E03" by simp
  from unit_scale_exponents [of ?M, THEN mp, OF h, unfolded m]
  show ?thesis .
qed

text \<open>
  C8. \<open>decode_pls\<close>, for the unit scale its first read decoded and the register value
  \<open>v\<close> its second read returned: PL1 is bits 0 to 14 of the lower 32-bit half times the
  power unit, PL2 is bits 0 to 14 of the upper half times the power unit, and tau is the
  time unit times \<open>2^w\<close> for \<open>w\<close> in bits 17 to 23 of the lower half.
\<close>

theorem decode_pls_fields:
  "fst (decode_power_time_units m) = Inr (power_unit, time_unit) \<and>
   faults m (Suc (length (calls m))) = None \<longrightarrow>
     fst (decode_pls m) =
       Inr (of_int (msrs m 0x610 mod 2 ^ 32 mod 2 ^ 15) * power_unit,
            of_int (msrs m 0x610 div 2 ^ 32 mod 2 ^ 32 mod 2 ^ 15) * power_unit,
            time_unit * 2 ^ nat (msrs m 0x610 mod 2 ^ 32 div 2 ^ 17 mod 2 ^ 7),
            msrs m 0x610)"
proof
  assume a: "fst (decode_power_time_units m) = Inr (power_unit, time_unit) \<and>
    faults m (Suc (length (calls m))) = None"
  note r = dptu_result [OF a [THEN conjunct1]]
  from a have f: "faults m (Suc (length (calls m))) = None" by simp
  show "fst (decode_pls m) =
       Inr (of_int (msrs m 0x610 mod 2 ^ 32 mod 2 ^ 15) * power_unit,
            of_int (msrs m 0x610 div 2 ^ 32 mod 2 ^ 32 mod 2 ^ 15) * power_unit,
            time_unit * 2 ^ nat (msrs m 0x610 mod 2 ^ 32 div 2 ^ 17 mod 2 ^ 7),
            msrs m 0x610)"
    unfolding decode_pls_ok [OF r(1) f] r(2,3)
    by (simp only: and_mask15 and_mask32 and_mask7 drop_bit_eq_div fst_conv)
qed

theorem decode_pls_fields_witness:
  "fst (decode_power_time_units
     \<lparr>msrs = (\<lambda>_. 0)(0x606 := 0xA0E03, 0x610 := 0x804283E800DD8160), faults = (\<lambda>_. None),
      calls = [], outputs = []\<rparr>) = Inr (1 / 8, 1) \<and>
   fst (decode_pls
     \<lparr>msrs = (\<lambda>_. 0)(0x606 := 0xA0E03, 0x610 := 0x804283E800DD8160), faults = (\<lambda>_. None),
      calls = [], outputs = []\<rparr>) =
     Inr (of_int (0x804283E800DD8160 mod 2 ^ 32 mod 2 ^ 15) * (1 / 8),
          of_int (0x804283E800DD8160 div 2 ^ 32 mod 2 ^ 32 mod 2 ^ 15) * (1 / 8),
          1 * 2 ^ nat (0x804283E800DD8160 mod 2 ^ 32 div 2 ^ 17 mod 2 ^ 7),
          0x804283E800DD8160) \<and>
   of_int (0x804283E800DD8160 mod 2 ^ 32 mod 2 ^ 15) * (1 / 8) = (44 :: rat) \<and>
   of_int (0x804283E800DD8160 div 2 ^ 32 mod 2 ^ 32 mod 2 ^ 15) * (1 / 8) = (125 :: rat) \<and>
   (0x804283E800DD8160 :: int) mod 2 ^ 32 div 2 ^ 17 mod 2 ^ 7 = 110"
proof -
  let ?M = "\<lparr>msrs = (\<lambda>_. 0)(0x606 := 0xA0E03, 0x610 := 0x804283E800DD8160),
    faults = (\<lambda>_. None), calls = [], outputs = []\<rparr>"
  have h1: "fst (decode_power_time_units ?M) = Inr (1 / 8, 1)" by code_simp
  have h2: "faults ?M (Suc (length (calls ?M))) = None" by simp
  have m: "msrs ?M 0x610 = 0x804283E800DD8160" by simp
  have e: "of_int (0x804283E800DD8160 mod 2 ^ 32 mod 2 ^ 15) * (1 / 8) = (44 :: rat) \<and>
   of_int (0x804283E800DD8160 div 2 ^ 32 mod 2 ^ 32 mod 2 ^ 15) * (1 / 8) = (125 :: rat) \<and>
   (0x804283E800DD8160 :: int) mod 2 ^ 32 div 2 ^ 17 mod 2 ^ 7 = 110"
    by simp
  from decode_pls_fields [of ?M "1 / 8" 1, THEN mp, OF conjI [OF h1 h2], unfolded m] h1 e
  show ?thesis by blast
qed

section \<open>The apply transaction\<close>

text \<open>
  C6. If a register read of an apply fails, the operation aborts with that error and no
  write is issued. The reads of an apply are the reads it performs to build the value
  it writes: the unit-register read and the power-limit read of \<open>apply_chill_profile\<close>;
  the reads of \<open>0x606\<close>, \<open>0x610\<close> and \<open>0x606\<close> again of \<open>apply_profile\<close>. Whichever of
  them is the first invocation to fail, \<open>apply_chill_profile\<close> raises the error and
  \<open>apply_profile\<close> shows it in its error dialogue; the list of writes issued is the one
  before the call and the register file is unchanged. (What the front end reads after a
  completed write, to refresh its display, is a query of its own.)
\<close>

theorem read_failure_issues_no_write:
  "((\<exists>j<2. faults m (length (calls m) + j) = Some e \<and>
            (\<forall>k<j. faults m (length (calls m) + k) = None)) \<longrightarrow>
      fst (apply_chill_profile m) = Inl e \<and>
      writes_of (calls (snd (apply_chill_profile m))) = writes_of (calls m) \<and>
      msrs (snd (apply_chill_profile m)) = msrs m) \<and>
   (find (\<lambda>p. fst p = name) PROFILES = Some (name', pl1, pl2) \<and>
    (\<exists>j<3. faults m (length (calls m) + j) = Some e \<and>
            (\<forall>k<j. faults m (length (calls m) + k) = None)) \<longrightarrow>
      outputs (apply_profile name m) = outputs m @ [ShowError ''Error applying profile'' e] \<and>
      writes_of (calls (apply_profile name m)) = writes_of (calls m) \<and>
      msrs (apply_profile name m) = msrs m)"
proof -
  have cli: "fst (apply_chill_profile m) = Inl e \<and>
      writes_of (calls (snd (apply_chill_profile m))) = writes_of (calls m) \<and>
      msrs (snd (apply_chill_profile m)) = msrs m"
    if "\<exists>j<2. faults m (length (calls m) + j) = Some e \<and>
            (\<forall>k<j. faults m (length (calls m) + k) = None)"
    using first_fault_cases2 [OF that]
    by (auto simp add: chill_fail_1 chill_fail_2 writes_of_append)
  have gui: "outputs (apply_profile name m) = outputs m @ [ShowError ''Error applying profile'' e] \<and>
      writes_of (calls (apply_profile name m)) = writes_of (calls m) \<and>
      msrs (apply_profile name m) = msrs m"
    if p: "find (\<lambda>p. fst p = name) PROFILES = Some (name', pl1, pl2)"
      and "\<exists>j<3. faults m (length (calls m) + j) = Some e \<and>
            (\<forall>k<j. faults m (length (calls m) + k) = None)"
    using first_fault_cases3 [OF that(2)]
    by (auto simp add: apply_profile_fail_1 [OF p] apply_profile_fail_2 [OF p]
        apply_profile_fail_3 [OF p] writes_of_append)
  from cli gui show ?thesis by blast
qed

theorem read_failure_issues_no_write_witness:
  "fst (apply_chill_profile
     \<lparr>msrs = (\<lambda>_. 0)(0x606 := 3),
      faults = (\<lambda>n. if n = 1 then Some CalledProcessError else None),
      calls = [], outputs = []\<rparr>) = Inl CalledProcessError \<and>
   writes_of (calls (snd (apply_chill_profile
     \<lparr>msrs = (\<lambda>_. 0)(0x606 := 3),
      faults = (\<lambda>n. if n = 1 then Some CalledProcessError else None),
      calls = [], outputs = []\<rparr>))) = [] \<and>
   msrs (snd (apply_chill_profile
     \<lparr>msrs = (\<lambda>_. 0)(0x606 := 3),
      faults = (\<lambda>n. if n = 1 then Some CalledProcessError else None),
      calls = [], outputs = []\<rparr>)) = (\<lambda>_. 0)(0x606 := 3) \<and>
   find (\<lambda>p. fst p = ''Chill'') PROFILES = Some (''Chill'', 20, 28) \<and>
   outputs (apply_profile ''Chill''
     \<lparr>msrs = (\<lambda>_. 0)(0x606 := 3),
      faults = (\<lambda>n. if n = 1 then Some CalledProcessError else None),
      calls = [], outputs = []\<rparr>) =
     [ShowError ''Error applying profile'' CalledProcessError] \<and>
   writes_of (calls (apply_profile ''Chill''
     \<lparr>msrs = (\<lambda>_. 0)(0x606 := 3),
      faults = (\<lambda>n. if n = 1 then Some CalledProcessError else None),
      calls = [], outputs = []\<rparr>)) = [] \<and>
   msrs (apply_profile ''Chill''
     \<lparr>msrs = (\<lambda>_. 0)(0x606 := 3),
      faults = (\<lambda>n. if n = 1 then Some CalledProcessError else None),
      calls = [], outputs = []\<rparr>) = (\<lambda>_. 0)(0x606 := 3)"
proof -
  let ?F = "\<lparr>msrs = (\<lambda>_. 0)(0x606 := 3),
      faults = (\<lambda>n. if n = 1 then Some CalledProcessError else None),
      calls = [], outputs = []\<rparr>"
  have h1: "\<exists>j<2. faults ?F (length (calls ?F) + j) = Some CalledProcessError \<and>
      (\<forall>k<j. faults ?F (length (calls ?F) + k) = None)"
    by (rule exI [of _ 1]) simp
  have h2: "\<exists>j<3. faults ?F (length (calls ?F) + j) = Some CalledProcessError \<and>
      (\<forall>k<j. faults ?F (length (calls ?F) + k) = None)"
    by (rule exI [of _ 1]) simp
  have f: "find (\<lambda>p. fst p = ''Chill'') PROFILES = Some (''Chill'', 20, 28)"
    by (simp add: PROFILES_def)
  have s: "writes_of (calls ?F) = []" "msrs ?F = (\<lambda>_. 0)(0x606 := 3)" "outputs ?F = []"
    by simp_all
  note T = read_failure_issues_no_write [of ?F CalledProcessError "''Chill''" "''Chill''" 20 28]
  from T [THEN conjunct1, THEN mp, OF h1, unfolded s]
    T [THEN conjunct2, THEN mp, OF conjI [OF f h2], unfolded s append_Nil] f
  show ?thesis by blast
qed

text \<open>
  C7. The graphical front end does not read the unit register once per apply. With no
  failure, \<open>apply_profile\<close> reads \<open>0x606\<close> and \<open>0x610\<close> (in \<open>decode_pls\<close>), reads \<open>0x606\<close>
  again (in \<open>encode_pls\<close>), writes \<open>0x610\<close>, and then reads \<open>0x606\<close> and \<open>0x610\<close> once more to
  refresh the display: six invocations, three of them reads of the unit register.
\<close>

theorem gui_call_sequence_counterexample:
  "calls (apply_profile ''Chill''
     \<lparr>msrs = (\<lambda>_. 0)(0x606 := 3), faults = (\<lambda>_. None), calls = [], outputs = []\<rparr>) =
     [Rdmsr 0x606, Rdmsr 0x610, Rdmsr 0x606, Wrmsr 0x610 0xE0000000A0, Rdmsr 0x606, Rdmsr 0x610] \<and>
   length (filter (\<lambda>c. c = Rdmsr 0x606) (calls (apply_profile ''Chill''
     \<lparr>msrs = (\<lambda>_. 0)(0x606 := 3), faults = (\<lambda>_. None), calls = [], outputs = []\<rparr>))) = 3"
  by code_simp

text \<open>
  C7, as the programs behave. When its two reads succeed, \<open>apply_chill_profile\<close> issues
  exactly: one read of the unit register \<open>0x606\<close>, one read of the power-limit register
  \<open>0x610\<close>, one write of \<open>0x610\<close>. When no invocation fails, \<open>apply_profile\<close> issues exactly:
  read \<open>0x606\<close>, read \<open>0x610\<close>, read \<open>0x606\<close>, write \<open>0x610\<close>, read \<open>0x606\<close>, read \<open>0x610\<close>.
\<close>

theorem gateway_call_sequence:
  "((\<forall>k<2. faults m (length (calls m) + k) = None) \<longrightarrow>
      (\<exists>v. calls (snd (apply_chill_profile m)) =
             calls m @ [Rdmsr 0x606, Rdmsr 0x610, Wrmsr 0x610 v])) \<and>
   (find (\<lambda>p. fst p = name) PROFILES = Some (name', pl1, pl2) \<and>
    (\<forall>k<6. faults m (length (calls m) + k) = None) \<longrightarrow>
      (\<exists>v. calls (apply_profile name m) =
             calls m @ [Rdmsr 0x606, Rdmsr 0x610, Rdmsr 0x606, Wrmsr 0x610 v,
                        Rdmsr 0x606, Rdmsr 0x610]))"
proof (intro conjI impI)
  assume f: "\<forall>k<2. faults m (length (calls m) + k) = None"
  have "faults m (length (calls m)) = None" and "faults m (Suc (length (calls m))) = None"
    by (rule no_fault_Suc [OF f], simp)+
  from chill_calls [OF this]
  show "\<exists>v. calls (snd (apply_chill_profile m)) =
      calls m @ [Rdmsr 0x606, Rdmsr 0x610, Wrmsr 0x610 v]"
    by blast
next
  assume a: "find (\<lambda>p. fst p = name) PROFILES = Some (name', pl1, pl2) \<and>
    (\<forall>k<6. faults m (length (calls m) + k) = None)"
  then have p: "find (\<lambda>p. fst p = name) PROFILES = Some (name', pl1, pl2)"
    and f: "\<forall>k<6. faults m (length (calls m) + k) = None" by blast+
  have "faults m (length (calls m)) = None" by (rule no_fault_Suc(1) [OF f]) simp
  from profile_encode_returns [OF p this]
  obtain v where "fst (encode_pls (Finite pl1) (Finite pl2) (msrs m 0x610) m) = Inr v" by blast
  from apply_profile_all_ok [OF p f this]
  show "\<exists>v. calls (apply_profile name m) =
      calls m @ [Rdmsr 0x606, Rdmsr 0x610, Rdmsr 0x606, Wrmsr 0x610 v, Rdmsr 0x606, Rdmsr 0x610]"
    by simp
qed

theorem gateway_call_sequence_witness:
  "(\<exists>v. calls (snd (apply_chill_profile
      \<lparr>msrs = (\<lambda>_. 0)(0x606 := 3), faults = (\<lambda>_. None), calls = [], outputs = []\<rparr>)) =
      [Rdmsr 0x606, Rdmsr 0x610, Wrmsr 0x610 v]) \<and>
   find (\<lambda>p. fst p = ''Chill'') PROFILES = Some (''Chill'', 20, 28) \<and>
   (\<exists>v. calls (apply_profile ''Chill''
      \<lparr>msrs = (\<lambda>_. 0)(0x606 := 3), faults = (\<lambda>_. None), calls = [], outputs = []\<rparr>) =
      [Rdmsr 0x606, Rdmsr 0x610, Rdmsr 0x606, Wrmsr 0x610 v, Rdmsr 0x606, Rdmsr 0x610])"
proof -
  let ?M = "\<lparr>msrs = (\<lambda>_. 0)(0x606 := 3), faults = (\<lambda>_. None), calls = [], outputs = []\<rparr>"
  have h1: "\<forall>k<2. faults ?M (length (calls ?M) + k) = None" by simp
  have h2: "\<forall>k<6. faults ?M (length (calls ?M) + k) = None" by simp
  have f: "find (\<lambda>p. fst p = ''Chill'') PROFILES = Some (''Chill'', 20, 28)"
    by (simp add: PROFILES_def)
  have c: "calls ?M = []" by simp
  note T = gateway_call_sequence [of ?M "''Chill''" "''Chill''" 20 28]
  from T [THEN conjunct1, THEN mp, OF h1, unfolded c append_Nil]
    T [THEN conjunct2, THEN mp, OF conjI [OF f h2], unfolded c append_Nil] f
  show ?thesis by blast
qed

subsection \<open>What an apply leaves alone\<close>

text \<open>
  Let \<open>old\<close> be the 64-bit value of the power-limit register and \<open>tau\<close> the time window
  \<open>decode_pls\<close> decodes from it, and let no invocation fail. The value \<open>v\<close> that
  \<open>apply_chill_profile\<close> writes agrees with \<open>old\<close> in every bit outside bits 0 to 14 and
  32 to 46, and \<open>decode_pls\<close> after the write yields the same \<open>tau\<close>. While the power
  exponent of the unit register is at most 10, the limits decoded after the write are
  exactly 20 W and 28 W.
\<close>

lemma chill_frame_and_decode:
  assumes f: "\<forall>k<5. faults m (length (calls m) + k) = None"
    and range: "0 \<le> old" "old < 2 ^ 64"
    and before: "fst (decode_pls m) = Inr (pl1_before, pl2_before, tau, old)"
  shows "\<exists>v pl1_after pl2_after.
       calls (snd (apply_chill_profile m)) =
         calls m @ [Rdmsr 0x606, Rdmsr 0x610, Wrmsr 0x610 v] \<and>
       (\<forall>i. \<not> i < 15 \<and> \<not> (32 \<le> i \<and> i < 47) \<longrightarrow> bit v i = bit old i) \<and>
       fst (decode_pls (snd (apply_chill_profile m))) = Inr (pl1_after, pl2_after, tau, v) \<and>
       (nat (msrs m 0x606 AND 0xF) \<le> 10 \<longrightarrow> pl1_after = 20 \<and> pl2_after = 28)"
proof -
  define p where "p = nat (msrs m 0x606 AND 0xF)"
  define pu :: rat where "pu = 1 / 2 ^ p"
  define tu :: rat where "tu = 1 / 2 ^ nat (drop_bit 4 (msrs m 0x606) AND 0xF)"
  define r1 :: int where "r1 = 20 * 2 ^ p"
  define r2 :: int where "r2 = 28 * 2 ^ p"
  define v where "v = push_bit 32 (((drop_bit 32 old AND 0xFFFFFFFF) AND NOT 0x7FFF) OR (r2 AND 0x7FFF))
             OR (((old AND 0xFFFFFFFF) AND NOT 0x7FFF) OR (r1 AND 0x7FFF))"
  define m3 where "m3 = m\<lparr>calls := calls m @ [Rdmsr 0x606, Rdmsr 0x610, Wrmsr 0x610 v],
       msrs := (msrs m)(0x610 := v),
       outputs := outputs m @ [Print ''T2 PL preset applied: Chill (PL1=20 W, PL2=28 W)'']\<rparr>"
  have old: "old = msrs m 0x610" by (rule decode_pls_result(3) [OF before])
  have tau: "tau = tu * 2 ^ nat (drop_bit 17 (old AND 0xFFFFFFFF) AND 0x7F)"
    unfolding tu_def old by (rule decode_pls_result(4) [OF before])
  from f have f3: "\<forall>k<3. faults m (length (calls m) + k) = None" by simp
  have s: "snd (apply_chill_profile m) = m3"
    unfolding m3_def v_def r1_def r2_def p_def old by (rule chill_all_ok [OF f3])
  note n = no_fault_Suc [OF f]
  have g0: "faults m3 (length (calls m3)) = None"
    using n(4) by (simp add: m3_def)
  have g1: "faults m3 (Suc (length (calls m3))) = None"
    using n(5) by (simp add: m3_def)
  have m3v: "msrs m3 0x610 = v" and m3u: "msrs m3 0x606 = msrs m 0x606"
    by (simp_all add: m3_def)
  note fields = new_pkg_fields [OF v_def]
  have d: "fst (decode_pls m3) =
      Inr (of_int ((v AND 0xFFFFFFFF) AND 0x7FFF) * pu,
           of_int ((drop_bit 32 v AND 0xFFFFFFFF) AND 0x7FFF) * pu, tau, v)"
    unfolding decode_pls_ok [OF g0 g1] m3v m3u tau pu_def p_def tu_def fields(3) by simp
  have c: "calls m3 = calls m @ [Rdmsr 0x606, Rdmsr 0x610, Wrmsr 0x610 v]"
    by (simp add: m3_def)
  have exact: "of_int ((v AND 0xFFFFFFFF) AND 0x7FFF) * pu = 20 \<and>
      of_int ((drop_bit 32 v AND 0xFFFFFFFF) AND 0x7FFF) * pu = 28"
    if "p \<le> 10"
  proof -
    from that have "(2 :: int) ^ p \<le> 2 ^ 10" by (intro power_increasing) simp_all
    then have le: "(2 :: int) ^ p \<le> 1024" by simp
    have ge: "0 < (2 :: int) ^ p" by simp
    from le ge have "r1 mod 2 ^ 15 = r1" and "r2 mod 2 ^ 15 = r2"
      unfolding r1_def r2_def by simp_all
    then have "(v AND 0xFFFFFFFF) AND 0x7FFF = r1"
      and "(drop_bit 32 v AND 0xFFFFFFFF) AND 0x7FFF = r2"
      using fields(1,2) by simp_all
    then show ?thesis by (simp add: r1_def r2_def pu_def)
  qed
  from c frame_bits [OF v_def range] d exact
  show ?thesis unfolding s p_def by blast
qed

text \<open>
  Likewise for the front end and every preset of \<open>PROFILES\<close>: the value \<open>apply_profile\<close>
  writes agrees with \<open>old\<close> outside bits 0 to 14 and 32 to 46, and the display refreshed
  after the write shows the same \<open>tau\<close>.
\<close>

lemma profile_frame_and_decode:
  assumes p: "find (\<lambda>p. fst p = name) PROFILES = Some (name', pl1, pl2)"
    and f: "\<forall>k<6. faults m (length (calls m) + k) = None"
    and before: "fst (decode_pls m) = Inr (pl1_before, pl2_before, tau, old)"
    and range: "0 \<le> old" "old < 2 ^ 64"
  shows "\<exists>v pl1_after pl2_after.
       calls (apply_profile name m) =
         calls m @ [Rdmsr 0x606, Rdmsr 0x610, Rdmsr 0x606, Wrmsr 0x610 v,
                    Rdmsr 0x606, Rdmsr 0x610] \<and>
       (\<forall>i. \<not> i < 15 \<and> \<not> (32 \<le> i \<and> i < 47) \<longrightarrow> bit v i = bit old i) \<and>
       outputs (apply_profile name m) = outputs m @ [LabelConfig pl1_after pl2_after tau]"
proof -
  define e where "e = nat (msrs m 0x606 AND 0xF)"
  define pu :: rat where "pu = 1 / 2 ^ e"
  define tu :: rat where "tu = 1 / 2 ^ nat (drop_bit 4 (msrs m 0x606) AND 0xF)"
  define r1 where "r1 = round_half_even (pl1 * 2 ^ e)"
  define r2 where "r2 = round_half_even (pl2 * 2 ^ e)"
  define v where "v = push_bit 32 (((drop_bit 32 old AND 0xFFFFFFFF) AND NOT 0x7FFF) OR (r2 AND 0x7FFF))
             OR (((old AND 0xFFFFFFFF) AND NOT 0x7FFF) OR (r1 AND 0x7FFF))"
  have old: "old = msrs m 0x610" by (rule decode_pls_result(3) [OF before])
  have tau: "tau = tu * 2 ^ nat (drop_bit 17 (old AND 0xFFFFFFFF) AND 0x7F)"
    unfolding tu_def old by (rule decode_pls_result(4) [OF before])
  have f0: "faults m (length (calls m)) = None" by (rule no_fault_Suc(1) [OF f]) simp
  have lt: "e < 16" unfolding e_def by (rule exponent_lt_16)
  have w: "watts_to_raw (Finite pl1) (Finite (1 / 2 ^ nat (msrs m 0x606 AND 0xF))) = Inr r1"
    "watts_to_raw (Finite pl2) (Finite (1 / 2 ^ nat (msrs m 0x606 AND 0xF))) = Inr r2"
    unfolding r1_def r2_def using profile_raw [OF p lt] by (simp_all only: e_def)
  have en: "fst (encode_pls (Finite pl1) (Finite pl2) (msrs m 0x610) m) = Inr v"
    unfolding v_def old encode_pls_ok [OF f0 w] by simp
  note fields = new_pkg_fields [OF v_def]
  note a = apply_profile_all_ok [OF p f en, folded e_def, folded pu_def tu_def,
      unfolded fields(3), folded tau]
  have c: "calls (apply_profile name m) =
      calls m @ [Rdmsr 0x606, Rdmsr 0x610, Rdmsr 0x606, Wrmsr 0x610 v, Rdmsr 0x606, Rdmsr 0x610]"
    unfolding a by simp
  have out: "outputs (apply_profile name m) = outputs m @
      [LabelConfig (of_int ((v AND 0xFFFFFFFF) AND 0x7FFF) * pu)
         (of_int ((drop_bit 32 v AND 0xFFFFFFFF) AND 0x7FFF) * pu) tau]"
    unfolding a by simp
  from c frame_bits [OF v_def range] out
  show ?thesis by blast
qed

text \<open>
  C1. An apply does not always leave the register decoding to the preset's wattages.
  With a unit register of \<open>0xB\<close> (power exponent 11, a power unit of \<open>1/2048\<close> W) and a
  power-limit register of 0, the raw values of the Chill preset, \<open>20 * 2048 = 0xA000\<close>
  and \<open>28 * 2048 = 0xE000\<close>, do not fit the 15-bit field and are masked to \<open>0x2000\<close> and
  \<open>0x6000\<close>. \<open>apply_chill_profile\<close> returns normally, writes \<open>0x600000002000\<close> and prints
  that PL1 = 20 W and PL2 = 28 W were applied; the register then decodes to 4 W and
  12 W, 16 W away from the preset where one raw step is \<open>1/2048\<close> W. The front end's
  \<open>apply_profile\<close> writes the same value and displays 4 W and 12 W.
\<close>

theorem chill_preset_is_masked:
  "fst (decode_units
     \<lparr>msrs = (\<lambda>_. 0)(0x606 := 0xB), faults = (\<lambda>_. None), calls = [], outputs = []\<rparr>) =
     Inr (1 / 2048, 1) \<and>
   raw_power (Finite 20) (Finite (1 / 2048)) = Inr 0xA000 \<and>
   raw_power (Finite 28) (Finite (1 / 2048)) = Inr 0xE000 \<and>
   fst (apply_chill_profile
     \<lparr>msrs = (\<lambda>_. 0)(0x606 := 0xB), faults = (\<lambda>_. None), calls = [], outputs = []\<rparr>) =
     Inr () \<and>
   calls (snd (apply_chill_profile
     \<lparr>msrs = (\<lambda>_. 0)(0x606 := 0xB), faults = (\<lambda>_. None), calls = [], outputs = []\<rparr>)) =
     [Rdmsr 0x606, Rdmsr 0x610, Wrmsr 0x610 0x600000002000] \<and>
   outputs (snd (apply_chill_profile
     \<lparr>msrs = (\<lambda>_. 0)(0x606 := 0xB), faults = (\<lambda>_. None), calls = [], outputs = []\<rparr>)) =
     [Print ''T2 PL preset applied: Chill (PL1=20 W, PL2=28 W)''] \<and>
   fst (decode_pls (snd (apply_chill_profile
     \<lparr>msrs = (\<lambda>_. 0)(0x606 := 0xB), faults = (\<lambda>_. None), calls = [], outputs = []\<rparr>))) =
     Inr (4, 12, 1, 0x600000002000) \<and>
   1 / 2048 < \<bar>(4 :: rat) - 20\<bar> \<and>
   1 / 2048 < \<bar>(12 :: rat) - 28\<bar> \<and>
   calls (apply_profile ''Chill''
     \<lparr>msrs = (\<lambda>_. 0)(0x606 := 0xB), faults = (\<lambda>_. None), calls = [], outputs = []\<rparr>) =
     [Rdmsr 0x606, Rdmsr 0x610, Rdmsr 0x606, Wrmsr 0x610 0x600000002000,
      Rdmsr 0x606, Rdmsr 0x610] \<and>
   outputs (apply_profile ''Chill''
     \<lparr>msrs = (\<lambda>_. 0)(0x606 := 0xB), faults = (\<lambda>_. None), calls = [], outputs = []\<rparr>) =
     [LabelConfig 4 12 1]"
  by code_simp

end
